theory Spec2Isabelle
  imports Complex_Main "HOL-Library.Log_Nat" "HOL-Library.Multiset"
begin

section \<open>SPICE PWL Generator: the waveform data and view model\<close>

text \<open>
  A shallow embedding of the class \<open>PWLTool\<close> of \<open>main.pyw\<close>. The widget tree, the
  matplotlib canvas and the event loop are left out; what is kept is the state the
  methods read and write and the computations they perform on it.

  Numbers. Python floats are modelled by the reals: arithmetic is exact, and the values
  \<open>inf\<close> and \<open>nan\<close>, overflow and binary rounding error are outside the model. A Python
  \<open>int\<close> mixed with floats (the initial point \<open>(0, 0)\<close>) is the real of the same value.

  Text. A Python \<open>str\<close> is modelled by a \<open>string\<close> of 8-bit characters holding its UTF-8
  encoding; only equality of the non-ASCII unit symbols matters, and the text of the
  PWL command is ASCII.
\<close>

subsection \<open>State\<close>

type_synonym point = "real \<times> real"

datatype py_error = KeyError | IndexError | ValueError

text \<open>The message boxes the methods open, kept as a log in the state.\<close>

datatype dialog =
    No_Selection_Warning
  | Minimum_Points_Warning
  | Loaded_Info
  | Load_Error

record pwl_tool =
  pwl_points :: "point list"
  time_unit :: string
  value_unit :: string
  source_type :: string
  x_min :: real
  x_max :: real
  y_min :: real
  y_max :: real
  selected_point :: "nat option"
  pan_start :: "(real \<times> real) option"
  panning :: bool
  grid_snap_enabled :: bool
  time_grid_size :: real
  value_grid_size :: real
  source_var :: string
  time_unit_var :: string
  value_unit_var :: string
  grid_snap_var :: bool
  time_grid_var :: real
  value_grid_var :: real
  x_min_var :: real
  x_max_var :: real
  y_min_var :: real
  y_max_var :: real
  pwl_text :: string
  shown :: "dialog list"

text \<open>
  A method that may raise after it has written to the object returns the state it
  leaves behind together with the exception, if any.
\<close>

type_synonym run = "pwl_tool \<times> py_error option"

subsection \<open>Unit registry\<close>

text \<open>The Greek letter mu (U+03BC) of the unit symbols, in UTF-8.\<close>

definition mu :: string where
  "mu = [CHR 0xCE, CHR 0xBC]"

definition time_prefixes :: "(string \<times> real) list" where
  "time_prefixes =
     [(''fs'', 1 / 10 ^ 15), (''ps'', 1 / 10 ^ 12), (''ns'', 1 / 10 ^ 9),
      (mu @ ''s'', 1 / 10 ^ 6), (''ms'', 1 / 10 ^ 3), (''s'', 1)]"

definition voltage_prefixes :: "(string \<times> real) list" where
  "voltage_prefixes =
     [(mu @ ''V'', 1 / 10 ^ 6), (''mV'', 1 / 10 ^ 3), (''V'', 1), (''kV'', 10 ^ 3)]"

definition current_prefixes :: "(string \<times> real) list" where
  "current_prefixes =
     [(''pA'', 1 / 10 ^ 12), (''nA'', 1 / 10 ^ 9), (mu @ ''A'', 1 / 10 ^ 6),
      (''mA'', 1 / 10 ^ 3), (''A'', 1)]"

text \<open>\<open>self.time_prefixes[self.time_unit]\<close>: \<open>None\<close> is the \<open>KeyError\<close>.\<close>

definition time_scale_of :: "pwl_tool \<Rightarrow> real option" where
  "time_scale_of st = map_of time_prefixes (time_unit st)"

definition value_scale_of :: "pwl_tool \<Rightarrow> real option" where
  "value_scale_of st =
     (if source_type st = ''Voltage'' then map_of voltage_prefixes (value_unit st)
      else map_of current_prefixes (value_unit st))"

text \<open>The state \<open>__init__\<close> builds, with the Tk variables \<open>setup_ui\<close> creates from it.\<close>

definition init_tool :: pwl_tool where
  "init_tool =
     \<lparr> pwl_points = [(0, 0), (1 / 10 ^ 6, 0)],
       time_unit = mu @ ''s'', value_unit = ''mV'', source_type = ''Voltage'',
       x_min = 0, x_max = 10, y_min = - 5, y_max = 5,
       selected_point = None, pan_start = None, panning = False,
       grid_snap_enabled = False, time_grid_size = 1, value_grid_size = 1,
       source_var = ''Voltage'', time_unit_var = mu @ ''s'', value_unit_var = ''mV'',
       grid_snap_var = False, time_grid_var = 1, value_grid_var = 1,
       x_min_var = 0, x_max_var = 10, y_min_var = - 5, y_max_var = 5,
       pwl_text = ''PWL(0 0 1e-06 0)'', shown = [] \<rparr>"

subsection \<open>Number formatting: the format specification \<open>.6g\<close>\<close>

definition pow10 :: "int \<Rightarrow> real" where
  "pow10 k = (if 0 \<le> k then 10 ^ nat k else 1 / 10 ^ nat (- k))"

text \<open>Python's \<open>round\<close> with one argument: to the nearest integer, ties to the even one.\<close>

definition py_round :: "real \<Rightarrow> int" where
  "py_round x =
     (let f = \<lfloor>x\<rfloor>; d = x - of_int f
      in if d < 1 / 2 then f else if 1 / 2 < d then f + 1
         else if even f then f else f + 1)"

text \<open>The decimal exponent of a positive number: \<open>10 ^ e \<le> a < 10 ^ (e + 1)\<close>.\<close>

definition dec_exponent :: "real \<Rightarrow> int" where
  "dec_exponent a =
     (if 1 \<le> a then int (floorlog 10 (nat \<lfloor>a\<rfloor>)) - 1
      else (let d = int (floorlog 10 (nat \<lfloor>1 / a\<rfloor>))
            in if 1 \<le> a * pow10 (d - 1) then 1 - d else - d))"

text \<open>
  Six significant digits of a positive number: the integer significand, between
  \<open>100000\<close> and \<open>999999\<close>, and the decimal exponent of the rounded number.
\<close>

definition sig6 :: "real \<Rightarrow> nat \<times> int" where
  "sig6 a =
     (let e = dec_exponent a; m = nat (py_round (a * pow10 (5 - e)))
      in if m = 1000000 then (100000, e + 1) else (m, e))"

definition digit_char :: "nat \<Rightarrow> char" where
  "digit_char d = ''0123456789'' ! (d mod 10)"

fun dec_digits :: "nat \<Rightarrow> nat \<Rightarrow> string" where
  "dec_digits 0 n = []"
| "dec_digits (Suc k) n = dec_digits k (n div 10) @ [digit_char n]"

definition strip_zeros :: "string \<Rightarrow> string" where
  "strip_zeros s = rev (dropWhile (\<lambda>c. c = CHR ''0'') (rev s))"

text \<open>The exponent of the scientific form has at least two digits.\<close>

definition exp_digits :: "nat \<Rightarrow> string" where
  "exp_digits n = dec_digits (max 2 (floorlog 10 n)) n"

text \<open>
  An integer part and a fraction; the point is dropped with an empty fraction, as the
  format \<open>g\<close> does after removing trailing zeros.
\<close>

definition dec_point :: "string \<Rightarrow> string \<Rightarrow> string" where
  "dec_point ip fp = ip @ (if fp = [] then [] else ''.'' @ fp)"

text \<open>Fixed notation, for a decimal exponent from \<open>-4\<close> to \<open>5\<close>.\<close>

definition fmt_fixed :: "nat \<Rightarrow> int \<Rightarrow> string" where
  "fmt_fixed m e =
     (let ds = dec_digits 6 m
      in if 0 \<le> e
         then dec_point (take (nat e + 1) ds) (strip_zeros (drop (nat e + 1) ds))
         else dec_point ''0'' (strip_zeros (replicate (nat (- e - 1)) (CHR ''0'') @ ds)))"

text \<open>Scientific notation, for the other exponents.\<close>

definition fmt_sci :: "nat \<Rightarrow> int \<Rightarrow> string" where
  "fmt_sci m e =
     (let ds = dec_digits 6 m
      in dec_point (take 1 ds) (strip_zeros (drop 1 ds)) @ ''e''
         @ (if e < 0 then ''-'' else ''+'') @ exp_digits (nat \<bar>e\<bar>))"

definition fmt_g6 :: "real \<Rightarrow> string" where
  "fmt_g6 x =
     (if x = 0 then ''0''
      else
        (let (m, e) = sig6 \<bar>x\<bar>
         in (if x < 0 then ''-'' else [])
            @ (if - 4 \<le> e \<and> e < 6 then fmt_fixed m e else fmt_sci m e)))"

text \<open>The value a number has after rounding to six significant digits.\<close>

definition round6 :: "real \<Rightarrow> real" where
  "round6 x =
     (if x = 0 then 0
      else (let (m, e) = sig6 \<bar>x\<bar> in sgn x * real m * pow10 (e - 5)))"

subsection \<open>Text: \<open>str.strip\<close>, \<open>str.split\<close> and \<open>float\<close>\<close>

text \<open>
  The ASCII characters Python counts as whitespace: tab, line feed, vertical tab, form
  feed, carriage return, the four separators \<open>0x1C\<close> to \<open>0x1F\<close>, and the space. The
  whitespace characters outside ASCII are not modelled; see \<open>py_ascii\<close> below.
\<close>

definition py_isspace :: "char \<Rightarrow> bool" where
  "py_isspace c = (let n = (of_char c :: nat) in (9 \<le> n \<and> n \<le> 13) \<or> (28 \<le> n \<and> n \<le> 32))"

definition py_strip :: "string \<Rightarrow> string" where
  "py_strip s = rev (dropWhile py_isspace (rev (dropWhile py_isspace s)))"

text \<open>\<open>s.split()\<close>: the maximal runs of non-whitespace characters, in order.\<close>

fun split_ws :: "string \<Rightarrow> string \<Rightarrow> string list" where
  "split_ws cur [] = (if cur = [] then [] else [cur])"
| "split_ws cur (c # cs) =
     (if py_isspace c then (if cur = [] then split_ws [] cs else cur # split_ws [] cs)
      else split_ws (cur @ [c]) cs)"

definition py_split :: "string \<Rightarrow> string list" where
  "py_split s = split_ws [] s"

definition is_digit :: "char \<Rightarrow> bool" where
  "is_digit c = (let n = (of_char c :: nat) in 48 \<le> n \<and> n \<le> 57)"

definition digit_val :: "char \<Rightarrow> nat" where
  "digit_val c = of_char c - 48"

text \<open>A digit part of a float literal: digits, with single underscores between digits.\<close>

fun valid_digitpart :: "string \<Rightarrow> bool" where
  "valid_digitpart [] = False"
| "valid_digitpart [c] = is_digit c"
| "valid_digitpart (c # d # cs) =
     (is_digit c \<and> (if d = CHR ''_'' then valid_digitpart cs else valid_digitpart (d # cs)))"

definition digits_value :: "string \<Rightarrow> nat" where
  "digits_value s = foldl (\<lambda>acc c. 10 * acc + digit_val c) 0 (filter is_digit s)"

definition num_digits :: "string \<Rightarrow> nat" where
  "num_digits s = length (filter is_digit s)"

text \<open>The mantissa: \<open>digits\<close>, \<open>digits.\<close>, \<open>digits.digits\<close> or \<open>.digits\<close>.\<close>

definition parse_mantissa :: "string \<Rightarrow> real option" where
  "parse_mantissa s =
     (let ip = takeWhile (\<lambda>c. c \<noteq> CHR ''.'') s;
          rest = dropWhile (\<lambda>c. c \<noteq> CHR ''.'') s
      in if rest = [] then
           (if valid_digitpart ip then Some (real (digits_value ip)) else None)
         else
           (let fp = drop 1 rest
            in if (ip = [] \<or> valid_digitpart ip) \<and> (fp = [] \<or> valid_digitpart fp)
                  \<and> \<not> (ip = [] \<and> fp = [])
               then Some (real (digits_value ip)
                          + real (digits_value fp) / 10 ^ num_digits fp)
               else None))"

text \<open>The exponent after \<open>e\<close> or \<open>E\<close>: an optional sign and a digit part.\<close>

definition parse_exponent :: "string \<Rightarrow> int option" where
  "parse_exponent s =
     (case s of
        [] \<Rightarrow> None
      | c # r \<Rightarrow>
          if c = CHR ''-'' then
            (if valid_digitpart r then Some (- int (digits_value r)) else None)
          else if c = CHR ''+'' then
            (if valid_digitpart r then Some (int (digits_value r)) else None)
          else (if valid_digitpart s then Some (int (digits_value s)) else None))"

definition is_exp_mark :: "char \<Rightarrow> bool" where
  "is_exp_mark c = (c = CHR ''e'' \<or> c = CHR ''E'')"

text \<open>An unsigned decimal literal: a mantissa and an optional exponent.\<close>

definition float_unsigned :: "string \<Rightarrow> real option" where
  "float_unsigned u =
     (let mant = takeWhile (\<lambda>c. \<not> is_exp_mark c) u;
          rest = dropWhile (\<lambda>c. \<not> is_exp_mark c) u;
          ex = (if rest = [] then Some 0 else parse_exponent (drop 1 rest))
      in case parse_mantissa mant of
           None \<Rightarrow> None
         | Some m \<Rightarrow> (case ex of None \<Rightarrow> None | Some k \<Rightarrow> Some (m * pow10 k)))"

text \<open>
  \<open>float(s)\<close> on an ASCII decimal literal; \<open>None\<close> is the \<open>ValueError\<close>. Python also
  accepts the literals \<open>inf\<close>, \<open>infinity\<close> and \<open>nan\<close> (see \<open>nonfinite_literal\<close> below) and
  digits outside ASCII; they denote no real number or lie outside the 8-bit model, and
  \<open>py_float\<close> says nothing about them.
\<close>

definition py_float :: "string \<Rightarrow> real option" where
  "py_float s =
     (let t = py_strip s
      in if t \<noteq> [] \<and> hd t = CHR ''-'' then map_option uminus (float_unsigned (tl t))
         else if t \<noteq> [] \<and> hd t = CHR ''+'' then float_unsigned (tl t)
         else float_unsigned t)"




subsection \<open>Text codec: \<open>generate_pwl_text\<close>\<close>

definition need_points :: string where
  "need_points = ''Need at least 2 points''"

text \<open>\<open>' '.join(pwl_pairs)\<close>\<close>

fun join_sp :: "string list \<Rightarrow> string" where
  "join_sp [] = []"
| "join_sp [s] = s"
| "join_sp (s # t # ss) = s @ '' '' @ join_sp (t # ss)"

text \<open>The string \<open>pwl_cmd\<close> that \<open>generate_pwl_text\<close> computes.\<close>

definition pwl_cmd :: "pwl_tool \<Rightarrow> string" where
  "pwl_cmd st =
     (if length (pwl_points st) < 2 then need_points
      else
        (let sorted_points = sort_key fst (pwl_points st);
             pwl_pairs = map (\<lambda>(t, v). fmt_g6 t @ '' '' @ fmt_g6 v) sorted_points
         in ''PWL('' @ join_sp pwl_pairs @ '')''))"

text \<open>The text widget is rewritten only when its stripped content differs.\<close>

definition generate_pwl_text :: "pwl_tool \<Rightarrow> pwl_tool" where
  "generate_pwl_text st =
     (if py_strip (pwl_text st) \<noteq> pwl_cmd st then st\<lparr>pwl_text := pwl_cmd st\<rparr> else st)"

text \<open>
  \<open>update_plot\<close>: of the object it changes only the text widget, through
  \<open>generate_pwl_text\<close>; it returns early on an empty point list and raises \<open>KeyError\<close>
  when a unit is not in its table.
\<close>

definition update_plot :: "pwl_tool \<Rightarrow> run" where
  "update_plot st =
     (if pwl_points st = [] then (st, None)
      else case time_scale_of st of
             None \<Rightarrow> (st, Some KeyError)
           | Some time_scale \<Rightarrow>
               (case value_scale_of st of
                  None \<Rightarrow> (st, Some KeyError)
                | Some value_scale \<Rightarrow> (generate_pwl_text st, None)))"

subsection \<open>Grid snap engine\<close>

definition snap_to_grid :: "pwl_tool \<Rightarrow> real \<Rightarrow> real \<Rightarrow> real \<times> real" where
  "snap_to_grid st time_display value_display =
     (if \<not> grid_snap_enabled st then (time_display, value_display)
      else if time_grid_size st \<le> 0 \<or> value_grid_size st \<le> 0
        then (time_display, value_display)
      else
        (let snapped_time =
               of_int (py_round (time_display / time_grid_size st)) * time_grid_size st;
             snapped_value =
               of_int (py_round (value_display / value_grid_size st)) * value_grid_size st
         in (max 0 snapped_time, snapped_value)))"

text \<open>The body of the loop of \<open>snap_all_points_to_grid\<close>, for one point.\<close>

definition snap_point :: "pwl_tool \<Rightarrow> real \<Rightarrow> real \<Rightarrow> point \<Rightarrow> point" where
  "snap_point st time_scale value_scale p =
     (case p of
        (t, v) \<Rightarrow>
          (let (t_snapped, v_snapped) = snap_to_grid st (t / time_scale) (v / value_scale)
           in (t_snapped * time_scale, v_snapped * value_scale)))"

definition snap_all_points_to_grid :: "pwl_tool \<Rightarrow> run" where
  "snap_all_points_to_grid st =
     (if \<not> grid_snap_enabled st then (st, None)
      else case time_scale_of st of
             None \<Rightarrow> (st, Some KeyError)
           | Some time_scale \<Rightarrow>
               (case value_scale_of st of
                  None \<Rightarrow> (st, Some KeyError)
                | Some value_scale \<Rightarrow>
                    (let new_points = map (snap_point st time_scale value_scale) (pwl_points st)
                     in update_plot (st\<lparr>pwl_points := sort_key fst new_points\<rparr>))))"

subsection \<open>Point store: \<open>find_unique_time\<close>\<close>

definition min_offset_of :: "pwl_tool \<Rightarrow> real \<Rightarrow> real" where
  "min_offset_of st time_scale =
     (let min_offset = 1 / 10 ^ 6 * time_scale
      in if grid_snap_enabled st \<and> 0 < time_grid_size st
         then max min_offset (time_grid_size st * time_scale * (1 / 10 ^ 4))
         else min_offset)"

text \<open>The times of all points but the one at \<open>exclude_index\<close>; \<open>i\<close> is the running index.\<close>

fun existing_times_from :: "nat \<Rightarrow> nat option \<Rightarrow> point list \<Rightarrow> real list" where
  "existing_times_from i exclude_index [] = []"
| "existing_times_from i exclude_index ((t, v) # ps) =
     (if exclude_index = None \<or> Some i \<noteq> exclude_index
      then t # existing_times_from (Suc i) exclude_index ps
      else existing_times_from (Suc i) exclude_index ps)"

definition is_duplicate :: "real \<Rightarrow> real list \<Rightarrow> real \<Rightarrow> bool" where
  "is_duplicate min_offset existing_times current_time =
     list_ex (\<lambda>existing_time. \<bar>current_time - existing_time\<bar> < min_offset / 2) existing_times"

text \<open>
  The body of \<open>for attempt in range(max_attempts)\<close>: \<open>n\<close> counts the iterations left,
  \<open>attempt\<close> is the loop variable, \<open>current_time\<close> and \<open>offset_direction\<close> are the two
  variables the loop updates. \<open>None\<close>: the loop ended without returning.
\<close>

fun probe :: "real \<Rightarrow> real \<Rightarrow> real list \<Rightarrow> nat \<Rightarrow> nat \<Rightarrow> real \<Rightarrow> int \<Rightarrow> real option" where
  "probe target_time min_offset existing_times 0 attempt current_time offset_direction = None"
| "probe target_time min_offset existing_times (Suc n) attempt current_time offset_direction =
     (if \<not> is_duplicate min_offset existing_times current_time \<and> 0 \<le> current_time
      then Some current_time
      else if 0 < offset_direction then
        (if target_time + min_offset * real attempt < 0
         then probe target_time min_offset existing_times n (Suc attempt) target_time (- 1)
         else probe target_time min_offset existing_times n (Suc attempt)
                (target_time + min_offset * real attempt) offset_direction)
      else
        (if target_time - min_offset * real attempt < 0
         then probe target_time min_offset existing_times n (Suc attempt)
                (target_time + min_offset * (real attempt + 1)) offset_direction
         else probe target_time min_offset existing_times n (Suc attempt)
                (target_time - min_offset * real attempt) offset_direction))"

definition max_attempts :: nat where
  "max_attempts = 100"

definition find_unique_time :: "pwl_tool \<Rightarrow> real \<Rightarrow> nat option \<Rightarrow> py_error + real" where
  "find_unique_time st target_time exclude_index =
     (case time_scale_of st of
        None \<Rightarrow> Inl KeyError
      | Some time_scale \<Rightarrow>
          (let min_offset = min_offset_of st time_scale;
               existing_times = existing_times_from 0 exclude_index (pwl_points st)
           in case probe target_time min_offset existing_times max_attempts 0 target_time 1 of
                Some t \<Rightarrow> Inr t
              | None \<Rightarrow>
                  if existing_times \<noteq> [] then Inr (Max (set existing_times) + min_offset)
                  else Inr (max 0 target_time)))"

subsection \<open>Point store: insert, update, delete\<close>

text \<open>The linear scan of \<open>add_point_at\<close> for the insertion index.\<close>

fun scan_insert_index :: "real \<Rightarrow> nat \<Rightarrow> nat \<Rightarrow> point list \<Rightarrow> nat" where
  "scan_insert_index unique_time insert_index i [] = insert_index"
| "scan_insert_index unique_time insert_index i ((t, v) # ps) =
     (if t < unique_time then scan_insert_index unique_time (Suc i) (Suc i) ps
      else insert_index)"

text \<open>\<open>list.insert(i, x)\<close>; an index beyond the end appends.\<close>

definition list_insert :: "nat \<Rightarrow> 'a \<Rightarrow> 'a list \<Rightarrow> 'a list" where
  "list_insert i x xs = take i xs @ x # drop i xs"

definition add_point_at :: "pwl_tool \<Rightarrow> real option \<Rightarrow> real option \<Rightarrow> run" where
  "add_point_at st x y =
     (case time_scale_of st of
        None \<Rightarrow> (st, Some KeyError)
      | Some time_scale \<Rightarrow>
          (case value_scale_of st of
             None \<Rightarrow> (st, Some KeyError)
           | Some value_scale \<Rightarrow>
               (let t_display = (case x of None \<Rightarrow> 0 | Some a \<Rightarrow> a);
                    v_display = (case y of None \<Rightarrow> 0 | Some b \<Rightarrow> b);
                    (t_snapped, v_snapped) = snap_to_grid st t_display v_display;
                    real_time = max 0 (t_snapped * time_scale);
                    real_value = v_snapped * value_scale
                in case find_unique_time st real_time None of
                     Inl e \<Rightarrow> (st, Some e)
                   | Inr unique_time \<Rightarrow>
                       (let insert_index = scan_insert_index unique_time 0 0 (pwl_points st)
                        in update_plot
                             (st\<lparr>pwl_points :=
                                   list_insert insert_index (unique_time, real_value)
                                     (pwl_points st)\<rparr>)))))"

text \<open>
  The loop of \<open>move_point\<close> that finds the moved point again after the sort; \<open>None\<close>:
  no point matched and \<open>selected_point\<close> keeps its value.
\<close>

fun relocate :: "real \<Rightarrow> real \<Rightarrow> nat \<Rightarrow> point list \<Rightarrow> nat option" where
  "relocate unique_time real_value i [] = None"
| "relocate unique_time real_value i ((t, v) # ps) =
     (if \<bar>t - unique_time\<bar> < 1 / 10 ^ 12 \<and> \<bar>v - real_value\<bar> < 1 / 10 ^ 12 then Some i
      else relocate unique_time real_value (Suc i) ps)"

definition move_point :: "pwl_tool \<Rightarrow> real option \<Rightarrow> real option \<Rightarrow> run" where
  "move_point st x y =
     (case selected_point st of
        None \<Rightarrow> (st, None)
      | Some sel \<Rightarrow>
          (case time_scale_of st of
             None \<Rightarrow> (st, Some KeyError)
           | Some time_scale \<Rightarrow>
               (case value_scale_of st of
                  None \<Rightarrow> (st, Some KeyError)
                | Some value_scale \<Rightarrow>
                    (let t_display = (case x of None \<Rightarrow> 0 | Some a \<Rightarrow> a);
                         v_display = (case y of None \<Rightarrow> 0 | Some b \<Rightarrow> b);
                         (t_snapped, v_snapped) = snap_to_grid st t_display v_display;
                         real_time = max 0 (t_snapped * time_scale);
                         real_value = v_snapped * value_scale
                     in case find_unique_time st real_time (Some sel) of
                          Inl e \<Rightarrow> (st, Some e)
                        | Inr unique_time \<Rightarrow>
                            if length (pwl_points st) \<le> sel then (st, Some IndexError)
                            else
                              (let points =
                                     sort_key fst
                                       ((pwl_points st)[sel := (unique_time, real_value)]);
                                   st1 = st\<lparr>pwl_points := points\<rparr>;
                                   st2 = (case relocate unique_time real_value 0 points of
                                            None \<Rightarrow> st1
                                          | Some i \<Rightarrow> st1\<lparr>selected_point := Some i\<rparr>)
                               in update_plot st2)))))"

text \<open>\<open>del xs[i]\<close> for an index within range.\<close>

definition list_delete :: "nat \<Rightarrow> 'a list \<Rightarrow> 'a list" where
  "list_delete i xs = take i xs @ drop (Suc i) xs"

definition messagebox :: "dialog \<Rightarrow> pwl_tool \<Rightarrow> pwl_tool" where
  "messagebox d st = st\<lparr>shown := shown st @ [d]\<rparr>"

definition delete_point :: "pwl_tool \<Rightarrow> run" where
  "delete_point st =
     (if selected_point st \<noteq> None \<and> 2 < length (pwl_points st) then
        (case selected_point st of
           None \<Rightarrow> (st, None)
         | Some sel \<Rightarrow>
             if length (pwl_points st) \<le> sel then (st, Some IndexError)
             else update_plot
                    (st\<lparr>pwl_points := list_delete sel (pwl_points st),
                        selected_point := None\<rparr>))
      else if selected_point st = None then (messagebox No_Selection_Warning st, None)
      else if length (pwl_points st) \<le> 2 then (messagebox Minimum_Points_Warning st, None)
      else (st, None))"

subsection \<open>View state\<close>

text \<open>
  Writing a Tk variable runs its write trace: \<open>validate_x_min\<close> on \<open>x_min_var\<close>,
  \<open>validate_grid_size\<close> on the two grid size variables.
\<close>

definition set_x_min_var :: "real \<Rightarrow> pwl_tool \<Rightarrow> pwl_tool" where
  "set_x_min_var v st = st\<lparr>x_min_var := (if v < 0 then 0 else v)\<rparr>"

definition validate_grid_size :: "pwl_tool \<Rightarrow> pwl_tool" where
  "validate_grid_size st =
     (let st1 = (if time_grid_var st \<le> 0 then st\<lparr>time_grid_var := 1 / 1000\<rparr> else st)
      in if value_grid_var st1 \<le> 0 then st1\<lparr>value_grid_var := 1 / 1000\<rparr> else st1)"

definition update_range :: "pwl_tool \<Rightarrow> run" where
  "update_range st =
     (let st1 = st\<lparr>x_min := max 0 (x_min_var st), x_max := x_max_var st,
                   y_min := y_min_var st, y_max := y_max_var st\<rparr>;
          st2 = (if x_min st1 \<noteq> x_min_var st1 then set_x_min_var (x_min st1) st1 else st1)
      in update_plot st2)"

definition zoom_in :: "pwl_tool \<Rightarrow> run" where
  "zoom_in st =
     (let x_center = (x_min st + x_max st) / 2;
          y_center = (y_min st + y_max st) / 2;
          x_range = (x_max st - x_min st) * (1 / 4);
          y_range = (y_max st - y_min st) * (1 / 4)
      in update_range
           ((set_x_min_var (x_center - x_range) st)
              \<lparr>x_max_var := x_center + x_range,
               y_min_var := y_center - y_range, y_max_var := y_center + y_range\<rparr>))"

definition zoom_out :: "pwl_tool \<Rightarrow> run" where
  "zoom_out st =
     (let x_center = (x_min st + x_max st) / 2;
          y_center = (y_min st + y_max st) / 2;
          x_range = (x_max st - x_min st) * 1;
          y_range = (y_max st - y_min st) * 1
      in update_range
           ((set_x_min_var (x_center - x_range) st)
              \<lparr>x_max_var := x_center + x_range,
               y_min_var := y_center - y_range, y_max_var := y_center + y_range\<rparr>))"

text \<open>
  The guard the pan and scroll handlers share: a negative \<open>new_x_min\<close> becomes \<open>0\<close>
  and \<open>new_x_max\<close> grows by the same amount.
\<close>

definition shift_right :: "real \<Rightarrow> real \<Rightarrow> real \<times> real" where
  "shift_right new_x_min new_x_max =
     (if new_x_min < 0 then (0, new_x_max - new_x_min) else (new_x_min, new_x_max))"

definition pan_left :: "pwl_tool \<Rightarrow> run" where
  "pan_left st =
     (let x_range = x_max st - x_min st;
          shift = x_range * (1 / 4);
          (new_x_min, new_x_max) = shift_right (x_min st - shift) (x_max st - shift)
      in update_range ((set_x_min_var new_x_min st)\<lparr>x_max_var := new_x_max\<rparr>))"

definition pan_right :: "pwl_tool \<Rightarrow> run" where
  "pan_right st =
     (let x_range = x_max st - x_min st;
          shift = x_range * (1 / 4)
      in update_range ((set_x_min_var (x_min st + shift) st)\<lparr>x_max_var := x_max st + shift\<rparr>))"

definition pan_up :: "pwl_tool \<Rightarrow> run" where
  "pan_up st =
     (let y_range = y_max st - y_min st;
          shift = y_range * (1 / 4)
      in update_range (st\<lparr>y_min_var := y_min st + shift, y_max_var := y_max st + shift\<rparr>))"

definition pan_down :: "pwl_tool \<Rightarrow> run" where
  "pan_down st =
     (let y_range = y_max st - y_min st;
          shift = y_range * (1 / 4)
      in update_range (st\<lparr>y_min_var := y_min st - shift, y_max_var := y_max st - shift\<rparr>))"

text \<open>A matplotlib mouse event: the fields the handlers read.\<close>

datatype mouse_button = No_Button | Button nat | Wheel string

record mouse_event =
  inaxes :: bool
  button :: mouse_button
  xdata :: "real option"
  ydata :: "real option"
  key :: "string option"

definition on_scroll :: "pwl_tool \<Rightarrow> mouse_event \<Rightarrow> run" where
  "on_scroll st event =
     (if \<not> inaxes event then (st, None)
      else
        (let zoom_factor = (if button event = Wheel ''up'' then 9 / 10 else 11 / 10 :: real)
         in case xdata event of
              None \<Rightarrow> (st, None)
            | Some x_center \<Rightarrow>
                (case ydata event of
                   None \<Rightarrow> (st, None)
                 | Some y_center \<Rightarrow>
                     if key event = Some ''control'' then
                       (let y_range = (y_max st - y_min st) * zoom_factor / 2
                        in update_range
                             (st\<lparr>y_min_var := y_center - y_range,
                                 y_max_var := y_center + y_range\<rparr>))
                     else if key event = Some ''shift'' then
                       (let x_range = (x_max st - x_min st) * zoom_factor / 2;
                            (new_x_min, new_x_max) =
                              shift_right (x_center - x_range) (x_center + x_range)
                        in update_range
                             ((set_x_min_var new_x_min st)\<lparr>x_max_var := new_x_max\<rparr>))
                     else
                       (let x_range = (x_max st - x_min st) * zoom_factor / 2;
                            y_range = (y_max st - y_min st) * zoom_factor / 2;
                            (new_x_min, new_x_max) =
                              shift_right (x_center - x_range) (x_center + x_range)
                        in update_range
                             ((set_x_min_var new_x_min st)
                                \<lparr>x_max_var := new_x_max,
                                 y_min_var := y_center - y_range,
                                 y_max_var := y_center + y_range\<rparr>)))))"

definition on_motion :: "pwl_tool \<Rightarrow> mouse_event \<Rightarrow> run" where
  "on_motion st event =
     (if \<not> inaxes event then (st, None)
      else if panning st \<and> pan_start st \<noteq> None then
        (case (pan_start st, xdata event, ydata event) of
           (Some (px, py), Some ex, Some ey) \<Rightarrow>
             (let dx = px - ex;
                  dy = py - ey;
                  (new_x_min, new_x_max) = shift_right (x_min st + dx) (x_max st + dx)
              in update_range
                   ((set_x_min_var new_x_min st)
                      \<lparr>x_max_var := new_x_max,
                       y_min_var := y_min st + dy, y_max_var := y_max st + dy\<rparr>))
         | _ \<Rightarrow> (st, None))
      else if selected_point st \<noteq> None \<and> button event = Button 1 then
        move_point st (xdata event) (ydata event)
      else (st, None))"

subsection \<open>Unit selection\<close>

definition on_unit_change :: "pwl_tool \<Rightarrow> run" where
  "on_unit_change st =
     update_plot (st\<lparr>time_unit := time_unit_var st, value_unit := value_unit_var st\<rparr>)"

definition on_source_type_change :: "pwl_tool \<Rightarrow> run" where
  "on_source_type_change st =
     (let st1 = st\<lparr>source_type := source_var st\<rparr>;
          st2 =
            (if source_type st1 = ''Voltage'' then
               (if map_of voltage_prefixes (value_unit st1) = None
                then st1\<lparr>value_unit := ''mV'', value_unit_var := ''mV''\<rparr> else st1)
             else
               (if map_of current_prefixes (value_unit st1) = None
                then st1\<lparr>value_unit := ''mA'', value_unit_var := ''mA''\<rparr> else st1))
      in update_plot st2)"

subsection \<open>Text codec: \<open>parse_pwl_text\<close>\<close>

text \<open>
  The loop over the token pairs; \<open>None\<close>: a token raised \<open>ValueError\<close> (or, for a
  list of odd length, the index error the enclosing handler swallows).
\<close>

fun parse_pairs :: "string list \<Rightarrow> point list option" where
  "parse_pairs [] = Some []"
| "parse_pairs [a] = None"
| "parse_pairs (a # b # parts) =
     (case py_float a of
        None \<Rightarrow> None
      | Some time_val \<Rightarrow>
          (case py_float b of
             None \<Rightarrow> None
           | Some voltage_val \<Rightarrow>
               (case parse_pairs parts of
                  None \<Rightarrow> None
                | Some new_points \<Rightarrow>
                    Some ((if time_val < 0 then 0 else time_val, voltage_val) # new_points))))"

text \<open>\<open>content\<close>: the text between \<open>PWL(\<close> and \<open>)\<close> when both are there, else the text.\<close>

definition pwl_content :: "string \<Rightarrow> string" where
  "pwl_content pwl_text_val =
     (if take 4 pwl_text_val = ''PWL('' \<and> pwl_text_val \<noteq> [] \<and> last pwl_text_val = CHR '')''
      then butlast (drop 4 pwl_text_val) else pwl_text_val)"

text \<open>The token list \<open>parts\<close> that \<open>parse_pwl_text\<close> computes from the text widget.\<close>

definition pwl_parts :: "pwl_tool \<Rightarrow> string list" where
  "pwl_parts st = py_split (pwl_content (py_strip (pwl_text st)))"

text \<open>
  \<open>parse_pwl_text\<close> never raises: its body is inside \<open>try ... except Exception: pass\<close>,
  so an exception of the final refresh leaves the state as it is at that moment.
\<close>

definition parse_pwl_text :: "pwl_tool \<Rightarrow> pwl_tool" where
  "parse_pwl_text st =
     (let pwl_text_val = py_strip (pwl_text st)
      in if pwl_text_val = [] \<or> pwl_text_val = need_points then st
         else
           (let parts = py_split (pwl_content pwl_text_val)
            in if length parts < 4 \<or> length parts mod 2 \<noteq> 0 then st
               else case parse_pairs parts of
                      None \<Rightarrow> st
                    | Some parsed \<Rightarrow>
                        (let new_points = sort_key fst parsed
                         in if length new_points < 2 then st
                            else
                              (let st1 = st\<lparr>pwl_points := new_points,
                                            selected_point := None\<rparr>
                               in if grid_snap_enabled st1
                                  then fst (snap_all_points_to_grid st1)
                                  else fst (update_plot st1)))))"

subsection \<open>Persistence snapshot: \<open>load_file\<close>\<close>

text \<open>The JSON document, each key present or absent; a range is the list stored.\<close>

record snapshot =
  doc_pwl_points :: "point list option"
  doc_source_type :: "string option"
  doc_time_unit :: "string option"
  doc_value_unit :: "string option"
  doc_x_range :: "real list option"
  doc_y_range :: "real list option"
  doc_grid_snap_enabled :: "bool option"
  doc_time_grid_size :: "real option"
  doc_value_grid_size :: "real option"

text \<open>What the file dialog and \<open>json.load\<close> deliver.\<close>

datatype file_choice = Cancelled | Unreadable | Document snapshot

definition get_or :: "'a option \<Rightarrow> 'a \<Rightarrow> 'a" where
  "get_or v d = (case v of None \<Rightarrow> d | Some a \<Rightarrow> a)"

text \<open>The four range variables are written in order; a short list raises \<open>IndexError\<close>.\<close>

definition set_range_vars :: "real list \<Rightarrow> real list \<Rightarrow> pwl_tool \<Rightarrow> run" where
  "set_range_vars x_range y_range st =
     (if length x_range < 1 then (st, Some IndexError)
      else
        (let st1 = set_x_min_var (x_range ! 0) st
         in if length x_range < 2 then (st1, Some IndexError)
            else
              (let st2 = st1\<lparr>x_max_var := x_range ! 1\<rparr>
               in if length y_range < 1 then (st2, Some IndexError)
                  else
                    (let st3 = st2\<lparr>y_min_var := y_range ! 0\<rparr>
                     in if length y_range < 2 then (st3, Some IndexError)
                        else (st3\<lparr>y_max_var := y_range ! 1\<rparr>, None)))))"

text \<open>Sequencing inside a \<open>try\<close> block: the next call runs unless an exception is pending.\<close>

definition then_run :: "run \<Rightarrow> (pwl_tool \<Rightarrow> run) \<Rightarrow> run" where
  "then_run r f = (case r of (st, None) \<Rightarrow> f st | (st, Some e) \<Rightarrow> (st, Some e))"

definition load_file :: "pwl_tool \<Rightarrow> file_choice \<Rightarrow> pwl_tool" where
  "load_file st choice =
     (case choice of
        Cancelled \<Rightarrow> st
      | Unreadable \<Rightarrow> messagebox Load_Error st
      | Document data \<Rightarrow>
          (let st1 = st\<lparr>pwl_points := get_or (doc_pwl_points data) [(0, 0), (1 / 10 ^ 6, 0)],
                        source_type := get_or (doc_source_type data) ''Voltage'',
                        time_unit := get_or (doc_time_unit data) (mu @ ''s''),
                        value_unit := get_or (doc_value_unit data) ''mV''\<rparr>;
               x_range = get_or (doc_x_range data) [0, 10];
               y_range = get_or (doc_y_range data) [- 5, 5];
               st2 = st1\<lparr>grid_snap_enabled := get_or (doc_grid_snap_enabled data) False,
                         time_grid_size := get_or (doc_time_grid_size data) 1,
                         value_grid_size := get_or (doc_value_grid_size data) 1\<rparr>;
               st3 = st2\<lparr>source_var := source_type st2, time_unit_var := time_unit st2,
                         value_unit_var := value_unit st2,
                         grid_snap_var := grid_snap_enabled st2\<rparr>;
               st4 = validate_grid_size (st3\<lparr>time_grid_var := time_grid_size st3\<rparr>);
               st5 = validate_grid_size (st4\<lparr>value_grid_var := value_grid_size st4\<rparr>)
           in case then_run (then_run (set_range_vars x_range y_range st5)
                               on_source_type_change) update_range of
                (st6, Some e) \<Rightarrow> messagebox Load_Error st6
              | (st6, None) \<Rightarrow> messagebox Loaded_Info st6))"

text \<open>A document with grid snapping on and a point between two grid lines.\<close>

definition off_grid_doc :: snapshot where
  "off_grid_doc =
     \<lparr>doc_pwl_points = Some [(0, 0), (3 / 2000000, 1)],
      doc_source_type = Some ''Voltage'', doc_time_unit = Some (mu @ ''s''),
      doc_value_unit = Some ''mV'', doc_x_range = Some [0, 10], doc_y_range = Some [- 5, 5],
      doc_grid_snap_enabled = Some True, doc_time_grid_size = Some 1,
      doc_value_grid_size = Some 1\<rparr>"

text \<open>The state \<open>load_file\<close> reaches from the initial one on that document.\<close>

definition loaded :: pwl_tool where
  "loaded =
     init_tool\<lparr>pwl_points := [(0, 0), (3 / 2000000, 1)], grid_snap_enabled := True,
       grid_snap_var := True, pwl_text := ''PWL(0 0 1.5e-06 1)'', shown := [Loaded_Info]\<rparr>"

subsection \<open>Positions on an axis, and sample events\<close>

text \<open>
  \<open>update_plot\<close> hands the bounds to \<open>set_xlim\<close> and \<open>set_ylim\<close> of a linear axis: a
  data coordinate \<open>c\<close> is drawn at this fraction of the axis length.
\<close>

definition axes_fraction :: "real \<Rightarrow> real \<Rightarrow> real \<Rightarrow> real" where
  "axes_fraction lo hi c = (c - lo) / (hi - lo)"

definition wheel_at :: "string \<Rightarrow> string option \<Rightarrow> real \<Rightarrow> real \<Rightarrow> mouse_event" where
  "wheel_at dir k x y =
     \<lparr>inaxes = True, button = Wheel dir, xdata = Some x, ydata = Some y, key = k\<rparr>"

definition drag_to :: "real \<Rightarrow> real \<Rightarrow> mouse_event" where
  "drag_to x y =
     \<lparr>inaxes = True, button = Button 3, xdata = Some x, ydata = Some y, key = None\<rparr>"

text \<open>A document that gives only the points and the snap flag.\<close>

definition bare_doc :: snapshot where
  "bare_doc =
     \<lparr>doc_pwl_points = Some [(1 / 4000000, 2), (0, 0)], doc_source_type = None,
      doc_time_unit = None, doc_value_unit = None, doc_x_range = None, doc_y_range = None,
      doc_grid_snap_enabled = Some True, doc_time_grid_size = None,
      doc_value_grid_size = None\<rparr>"

subsection \<open>The separation invariant\<close>

text \<open>Any two entries of the list, at different positions, differ by at least \<open>d\<close>.\<close>

definition separated :: "real \<Rightarrow> real list \<Rightarrow> bool" where
  "separated d ts = sorted_wrt (\<lambda>a b. d \<le> \<bar>a - b\<bar>) ts"

section \<open>Properties\<close>

subsection \<open>What \<open>update_plot\<close> leaves alone\<close>

lemma update_plot_frame:
  "pwl_points (fst (update_plot st)) = pwl_points st"
  "x_min (fst (update_plot st)) = x_min st"
  "x_max (fst (update_plot st)) = x_max st"
  "y_min (fst (update_plot st)) = y_min st"
  "y_max (fst (update_plot st)) = y_max st"
  "selected_point (fst (update_plot st)) = selected_point st"
  "shown (fst (update_plot st)) = shown st"
  "time_unit (fst (update_plot st)) = time_unit st"
  "value_unit (fst (update_plot st)) = value_unit st"
  "source_type (fst (update_plot st)) = source_type st"
  "grid_snap_enabled (fst (update_plot st)) = grid_snap_enabled st"
  "time_grid_size (fst (update_plot st)) = time_grid_size st"
  "value_grid_size (fst (update_plot st)) = value_grid_size st"
  "x_min_var (fst (update_plot st)) = x_min_var st"
  "x_max_var (fst (update_plot st)) = x_max_var st"
  "y_min_var (fst (update_plot st)) = y_min_var st"
  "y_max_var (fst (update_plot st)) = y_max_var st"
  by (simp_all add: update_plot_def generate_pwl_text_def split: option.splits)

subsection \<open>Deleting from a store of two points\<close>

text \<open>
  Claim C4, as amended. On a store of exactly two points \<open>delete_point\<close> returns
  normally, removes nothing and keeps the selection; the warning it opens is
  "No Selection" when nothing is selected and "Minimum Points" only when a point is
  selected.
\<close>

theorem delete_point_size_two:
  assumes "length (pwl_points st) = 2"
  shows "snd (delete_point st) = None
       \<and> pwl_points (fst (delete_point st)) = pwl_points st
       \<and> selected_point (fst (delete_point st)) = selected_point st
       \<and> shown (fst (delete_point st)) =
           shown st @ [if selected_point st = None then No_Selection_Warning
                       else Minimum_Points_Warning]"
  using assms by (simp add: delete_point_def messagebox_def)

theorem delete_point_size_two_witness:
  "length (pwl_points (init_tool\<lparr>selected_point := Some 0\<rparr>)) = 2
   \<and> pwl_points (fst (delete_point (init_tool\<lparr>selected_point := Some 0\<rparr>)))
       = pwl_points init_tool
   \<and> shown (fst (delete_point (init_tool\<lparr>selected_point := Some 0\<rparr>)))
       = [Minimum_Points_Warning]"
  using delete_point_size_two [of "init_tool\<lparr>selected_point := Some 0\<rparr>"]
  by (simp add: init_tool_def)

text \<open>
  The claim as stated fails in the initial state: two points, nothing selected, and
  the warning is "No Selection", not "Minimum Points".
\<close>

theorem delete_point_no_selection_counterexample:
  "length (pwl_points init_tool) = 2
   \<and> selected_point init_tool = None
   \<and> shown (fst (delete_point init_tool)) = [No_Selection_Warning]
   \<and> Minimum_Points_Warning \<notin> set (shown (fst (delete_point init_tool)))"
  by (simp add: delete_point_def messagebox_def init_tool_def)

subsection \<open>Changing the units\<close>

text \<open>
  Claim C9. \<open>on_unit_change\<close> takes the two unit symbols from the selectors and
  refreshes the plot; the stored points and the four view bounds keep their numbers,
  whatever the new units are and whether or not the refresh raises.
\<close>

theorem on_unit_change_frame:
  "pwl_points (fst (on_unit_change st)) = pwl_points st
   \<and> x_min (fst (on_unit_change st)) = x_min st
   \<and> x_max (fst (on_unit_change st)) = x_max st
   \<and> y_min (fst (on_unit_change st)) = y_min st
   \<and> y_max (fst (on_unit_change st)) = y_max st
   \<and> time_unit (fst (on_unit_change st)) = time_unit_var st
   \<and> value_unit (fst (on_unit_change st)) = value_unit_var st"
  by (simp add: on_unit_change_def update_plot_frame)

theorem on_unit_change_frame_witness:
  "pwl_points (fst (on_unit_change (init_tool\<lparr>time_unit_var := ''ns''\<rparr>)))
     = [(0, 0), (1 / 10 ^ 6, 0)]
   \<and> x_min (fst (on_unit_change (init_tool\<lparr>time_unit_var := ''ns''\<rparr>))) = 0
   \<and> x_max (fst (on_unit_change (init_tool\<lparr>time_unit_var := ''ns''\<rparr>))) = 10
   \<and> time_unit (fst (on_unit_change (init_tool\<lparr>time_unit_var := ''ns''\<rparr>))) = ''ns''"
  using on_unit_change_frame [of "init_tool\<lparr>time_unit_var := ''ns''\<rparr>"]
  by (simp add: init_tool_def)

subsection \<open>Keeping the time axis non-negative\<close>

lemma update_range_view:
  "x_min (fst (update_range st)) = max 0 (x_min_var st)"
  "x_max (fst (update_range st)) = x_max_var st"
  "y_min (fst (update_range st)) = y_min_var st"
  "y_max (fst (update_range st)) = y_max_var st"
  by (simp_all add: update_range_def Let_def update_plot_frame set_x_min_var_def)

text \<open>
  Claim C5, as amended. Pan-left, drag-pan and scroll-zoom on the time axis put the
  lower time bound at \<open>max 0\<close> of the bound they aim at and keep the span they aim at,
  so the window is shifted right by the clamp amount. A direct range edit
  (\<open>update_range\<close>) clamps the lower bound to \<open>0\<close> and takes the upper bound as entered.
\<close>

theorem view_clamp_shifts:
  "(x_min (fst (pan_left st)) = max 0 (x_min st - (x_max st - x_min st) * (1 / 4))
    \<and> x_max (fst (pan_left st)) - x_min (fst (pan_left st)) = x_max st - x_min st)
   \<and> (inaxes ev \<and> panning st \<and> pan_start st = Some (px, py)
        \<and> xdata ev = Some ex \<and> ydata ev = Some ey \<longrightarrow>
       x_min (fst (on_motion st ev)) = max 0 (x_min st + (px - ex))
       \<and> x_max (fst (on_motion st ev)) - x_min (fst (on_motion st ev))
           = x_max st - x_min st)
   \<and> (inaxes sc \<and> xdata sc = Some cx \<and> ydata sc = Some cy
        \<and> key sc \<noteq> Some ''control'' \<longrightarrow>
       x_min (fst (on_scroll st sc))
         = max 0 (cx - (x_max st - x_min st)
                        * (if button sc = Wheel ''up'' then 9 / 10 else 11 / 10) / 2)
       \<and> x_max (fst (on_scroll st sc)) - x_min (fst (on_scroll st sc))
         = (x_max st - x_min st) * (if button sc = Wheel ''up'' then 9 / 10 else 11 / 10))
   \<and> (x_min (fst (update_range st)) = max 0 (x_min_var st)
       \<and> x_max (fst (update_range st)) = x_max_var st)"
proof (intro conjI impI)
  show "x_min (fst (pan_left st)) = max 0 (x_min st - (x_max st - x_min st) * (1 / 4))"
    by (simp add: pan_left_def Let_def update_range_view set_x_min_var_def shift_right_def
        split: prod.splits)
  show "x_max (fst (pan_left st)) - x_min (fst (pan_left st)) = x_max st - x_min st"
    by (simp add: pan_left_def Let_def update_range_view set_x_min_var_def shift_right_def
        split: prod.splits)
next
  assume h: "inaxes ev \<and> panning st \<and> pan_start st = Some (px, py)
        \<and> xdata ev = Some ex \<and> ydata ev = Some ey"
  then show "x_min (fst (on_motion st ev)) = max 0 (x_min st + (px - ex))"
    by (simp add: on_motion_def Let_def update_range_view set_x_min_var_def shift_right_def
        split: prod.splits)
  from h show "x_max (fst (on_motion st ev)) - x_min (fst (on_motion st ev))
      = x_max st - x_min st"
    by (simp add: on_motion_def Let_def update_range_view set_x_min_var_def shift_right_def
        split: prod.splits)
next
  assume h: "inaxes sc \<and> xdata sc = Some cx \<and> ydata sc = Some cy
        \<and> key sc \<noteq> Some ''control''"
  then show "x_min (fst (on_scroll st sc))
         = max 0 (cx - (x_max st - x_min st)
                        * (if button sc = Wheel ''up'' then 9 / 10 else 11 / 10) / 2)"
    by (simp add: on_scroll_def Let_def update_range_view set_x_min_var_def shift_right_def
        split: prod.splits)
  from h show "x_max (fst (on_scroll st sc)) - x_min (fst (on_scroll st sc))
         = (x_max st - x_min st) * (if button sc = Wheel ''up'' then 9 / 10 else 11 / 10)"
    by (simp add: on_scroll_def Let_def update_range_view set_x_min_var_def shift_right_def
        split: prod.splits)
next
  show "x_min (fst (update_range st)) = max 0 (x_min_var st)"
    by (simp add: update_range_view)
  show "x_max (fst (update_range st)) = x_max_var st"
    by (simp add: update_range_view)
qed

text \<open>
  An instance: from the initial view \<open>[0, 10]\<close>, pan-left, a drag two units to the
  right and a wheel-up at time \<open>2\<close> all end with the lower bound \<open>0\<close> and the full span.
\<close>

theorem view_clamp_shifts_witness:
  "x_min (fst (pan_left init_tool)) = 0
   \<and> x_max (fst (pan_left init_tool)) = 10
   \<and> x_min (fst (on_motion (init_tool\<lparr>panning := True, pan_start := Some (1, 0)\<rparr>)
                   (drag_to 3 0))) = 0
   \<and> x_max (fst (on_motion (init_tool\<lparr>panning := True, pan_start := Some (1, 0)\<rparr>)
                   (drag_to 3 0))) = 10
   \<and> x_min (fst (on_scroll init_tool (wheel_at ''up'' None 2 3))) = 0
   \<and> x_max (fst (on_scroll init_tool (wheel_at ''up'' None 2 3))) = 9"
  using view_clamp_shifts [of init_tool "drag_to 3 0" 1 0 3 0 "wheel_at ''up'' None 2 3" 2 3]
    view_clamp_shifts
      [of "init_tool\<lparr>panning := True, pan_start := Some (1, 0)\<rparr>" "drag_to 3 0" 1 0 3 0
          "wheel_at ''up'' None 2 3" 2 3]
  by (simp add: init_tool_def drag_to_def wheel_at_def)

text \<open>
  The claim as stated fails for a direct range edit: entering \<open>-3\<close> as the lower time
  bound of the initial view gives \<open>[0, 10]\<close>; the upper bound is not raised by the
  clamp amount \<open>3\<close>, with or without the write trace of the variable.
\<close>

theorem range_edit_counterexample:
  "x_min (fst (update_range (set_x_min_var (- 3) init_tool))) = 0
   \<and> x_max (fst (update_range (set_x_min_var (- 3) init_tool))) = 10
   \<and> x_max (fst (update_range (set_x_min_var (- 3) init_tool))) \<noteq> x_max_var init_tool + 3
   \<and> x_min (fst (update_range (init_tool\<lparr>x_min_var := - 3\<rparr>))) = 0
   \<and> x_max (fst (update_range (init_tool\<lparr>x_min_var := - 3\<rparr>))) = 10"
  by (simp add: update_range_view set_x_min_var_def init_tool_def)

text \<open>
  \<open>zoom_out\<close> has no guard of its own: from the initial view \<open>[0, 10]\<close> it aims at
  \<open>[-5, 15]\<close> and ends at \<open>[0, 15]\<close>, one and a half times the span, not twice.
\<close>

lemma zoom_out_initial_view:
  "x_min (fst (zoom_out init_tool)) = 0 \<and> x_max (fst (zoom_out init_tool)) = 15"
  by (simp add: zoom_out_def Let_def update_range_view set_x_min_var_def init_tool_def)

subsection \<open>Scroll zoom\<close>

text \<open>
  Claim C8, as amended. A wheel event inside the plot with a cursor position makes the
  cursor the centre of the new window on each zoomed axis: the half-span is the old
  span times the factor (\<open>0.9\<close> for wheel-up, \<open>1.1\<close> otherwise) over two. With Ctrl only
  the value axis is recomputed, with Shift only the time axis; the axis that is not
  recomputed takes the bounds held in its range variables. The time window is moved
  right, with its span kept, when its lower bound would be negative.
\<close>

theorem scroll_zoom_centres_on_cursor:
  assumes "inaxes ev" and "xdata ev = Some cx" and "ydata ev = Some cy"
  shows
    "(key ev = Some ''control'' \<longrightarrow>
        y_min (fst (on_scroll st ev))
          = cy - (y_max st - y_min st)
                 * (if button ev = Wheel ''up'' then 9 / 10 else 11 / 10) / 2
        \<and> y_max (fst (on_scroll st ev))
          = cy + (y_max st - y_min st)
                 * (if button ev = Wheel ''up'' then 9 / 10 else 11 / 10) / 2
        \<and> x_min (fst (on_scroll st ev)) = max 0 (x_min_var st)
        \<and> x_max (fst (on_scroll st ev)) = x_max_var st)
     \<and> (key ev \<noteq> Some ''control'' \<longrightarrow>
        x_min (fst (on_scroll st ev))
          = max 0 (cx - (x_max st - x_min st)
                        * (if button ev = Wheel ''up'' then 9 / 10 else 11 / 10) / 2)
        \<and> x_max (fst (on_scroll st ev))
          = x_min (fst (on_scroll st ev))
            + (x_max st - x_min st) * (if button ev = Wheel ''up'' then 9 / 10 else 11 / 10))
     \<and> (key ev = Some ''shift'' \<longrightarrow>
        y_min (fst (on_scroll st ev)) = y_min_var st
        \<and> y_max (fst (on_scroll st ev)) = y_max_var st)
     \<and> (key ev \<noteq> Some ''control'' \<and> key ev \<noteq> Some ''shift'' \<longrightarrow>
        y_min (fst (on_scroll st ev))
          = cy - (y_max st - y_min st)
                 * (if button ev = Wheel ''up'' then 9 / 10 else 11 / 10) / 2
        \<and> y_max (fst (on_scroll st ev))
          = cy + (y_max st - y_min st)
                 * (if button ev = Wheel ''up'' then 9 / 10 else 11 / 10) / 2)"
  using assms
  by (simp add: on_scroll_def Let_def update_range_view set_x_min_var_def shift_right_def
      split: prod.splits)

theorem scroll_zoom_centres_on_cursor_witness:
  "inaxes (wheel_at ''up'' (Some ''control'') 2 3)
   \<and> y_min (fst (on_scroll init_tool (wheel_at ''up'' (Some ''control'') 2 3))) = - (3 / 2)
   \<and> y_max (fst (on_scroll init_tool (wheel_at ''up'' (Some ''control'') 2 3))) = 15 / 2
   \<and> x_min (fst (on_scroll init_tool (wheel_at ''up'' (Some ''control'') 2 3))) = 0
   \<and> x_max (fst (on_scroll init_tool (wheel_at ''up'' (Some ''control'') 2 3))) = 10
   \<and> x_min (fst (on_scroll init_tool (wheel_at ''down'' (Some ''shift'') 6 3))) = 1 / 2
   \<and> x_max (fst (on_scroll init_tool (wheel_at ''down'' (Some ''shift'') 6 3))) = 23 / 2
   \<and> y_min (fst (on_scroll init_tool (wheel_at ''down'' (Some ''shift'') 6 3))) = - 5
   \<and> y_max (fst (on_scroll init_tool (wheel_at ''down'' (Some ''shift'') 6 3))) = 5
   \<and> x_min (fst (on_scroll init_tool (wheel_at ''up'' None 2 3))) = 0
   \<and> x_max (fst (on_scroll init_tool (wheel_at ''up'' None 2 3))) = 9
   \<and> y_min (fst (on_scroll init_tool (wheel_at ''up'' None 2 3))) = - (3 / 2)
   \<and> y_max (fst (on_scroll init_tool (wheel_at ''up'' None 2 3))) = 15 / 2"
  using
    scroll_zoom_centres_on_cursor [of "wheel_at ''up'' (Some ''control'') 2 3" 2 3 init_tool]
    scroll_zoom_centres_on_cursor [of "wheel_at ''down'' (Some ''shift'') 6 3" 6 3 init_tool]
    scroll_zoom_centres_on_cursor [of "wheel_at ''up'' None 2 3" 2 3 init_tool]
  by (simp add: wheel_at_def init_tool_def)

text \<open>
  The claim as stated fails: the point under the cursor does not stay where it is
  drawn. With the initial value axis \<open>[-5, 5]\<close> and the cursor at value \<open>3\<close>, that value
  is drawn at four fifths of the axis before a Ctrl-wheel-up and at the middle after.
\<close>

theorem scroll_zoom_cursor_moves_counterexample:
  "axes_fraction (y_min init_tool) (y_max init_tool) 3 = 4 / 5
   \<and> axes_fraction
        (y_min (fst (on_scroll init_tool (wheel_at ''up'' (Some ''control'') 2 3))))
        (y_max (fst (on_scroll init_tool (wheel_at ''up'' (Some ''control'') 2 3)))) 3
       = 1 / 2"
  by (simp add: axes_fraction_def on_scroll_def Let_def update_range_view wheel_at_def
      init_tool_def)

subsection \<open>Evaluating the codec on numerals\<close>

lemma dec_digits_numeral:
  "dec_digits (numeral k) n = dec_digits (pred_numeral k) (n div 10) @ [digit_char n]"
  unfolding numeral_eq_Suc [of k] by simp

lemma dec_digits_one: "dec_digits 1 n = [digit_char n]"
  unfolding One_nat_def by simp

lemmas fmt_eval =
  fmt_g6_def fmt_fixed_def fmt_sci_def dec_point_def sig6_def dec_exponent_def pow10_def
  py_round_def Let_def compute_floorlog dec_digits_numeral dec_digits_one digit_char_def
  strip_zeros_def exp_digits_def

lemmas float_eval =
  py_float_def float_unsigned_def py_strip_def py_isspace_def is_exp_mark_def parse_mantissa_def
  parse_exponent_def is_digit_def digits_value_def num_digits_def digit_val_def pow10_def
  Let_def

lemma fmt_g6_samples:
  "fmt_g6 0 = ''0''"
  "fmt_g6 1 = ''1''"
  "fmt_g6 (1 / 1000000) = ''1e-06''"
  "fmt_g6 (3 / 2000000) = ''1.5e-06''"
  by (simp_all add: fmt_eval)

lemma py_float_samples:
  "py_float ''0'' = Some 0"
  "py_float ''1'' = Some 1"
  "py_float ''2'' = Some 2"
  "py_float ''3'' = Some 3"
  "py_float ''5'' = Some 5"
  "py_float ''-1'' = Some (- 1)"
  "py_float ''0.5'' = Some (1 / 2)"
  "py_float ''1.5e-06'' = Some (3 / 2000000)"
  "py_float ''x'' = None"
  by (simp_all add: float_eval)

lemma scales_init:
  "map_of time_prefixes (mu @ ''s'') = Some (1 / 1000000)"
  "map_of voltage_prefixes ''mV'' = Some (1 / 1000)"
  by (simp_all add: time_prefixes_def voltage_prefixes_def mu_def)

lemma time_prefixes_pos: "map_of time_prefixes u = Some ts \<Longrightarrow> 0 < ts"
  by (simp add: time_prefixes_def split: if_splits)

subsection \<open>Formatting the command\<close>

lemma py_strip_id:
  assumes "s \<noteq> []" and "\<not> py_isspace (hd s)" and "\<not> py_isspace (last s)"
  shows "py_strip s = s"
proof -
  from assms have "dropWhile py_isspace s = s"
    by (cases s) simp_all
  moreover from assms have "dropWhile py_isspace (rev s) = rev s"
    by (cases "rev s") (simp_all add: last_rev [symmetric] hd_rev)
  ultimately show ?thesis by (simp add: py_strip_def)
qed

lemma py_strip_pwl_cmd: "py_strip (pwl_cmd st) = pwl_cmd st"
  by (rule py_strip_id) (simp_all add: pwl_cmd_def need_points_def py_isspace_def Let_def)

text \<open>
  Claim C7. With fewer than two points the command is the sentinel. Otherwise it is
  \<open>PWL(\<close>, the points in ascending order of time (a stable sort of the stored list),
  each as its time and its value in the format \<open>.6g\<close> separated by single spaces, and
  \<open>)\<close>. The numbers are the stored ones: the command does not depend on the unit
  symbols or on the source type. After \<open>generate_pwl_text\<close> the text widget shows the
  command, and the initial store gives \<open>PWL(0 0 1e-06 0)\<close>.
\<close>

theorem pwl_cmd_format:
  "(length (pwl_points st) < 2 \<longrightarrow> pwl_cmd st = ''Need at least 2 points'')
   \<and> (2 \<le> length (pwl_points st) \<longrightarrow>
        pwl_cmd st =
          ''PWL(''
          @ join_sp (map (\<lambda>(t, v). fmt_g6 t @ '' '' @ fmt_g6 v) (sort_key fst (pwl_points st)))
          @ '')''
        \<and> sorted (map fst (sort_key fst (pwl_points st)))
        \<and> mset (sort_key fst (pwl_points st)) = mset (pwl_points st))
   \<and> pwl_cmd (st\<lparr>time_unit := tu, value_unit := vu, source_type := src\<rparr>) = pwl_cmd st
   \<and> py_strip (pwl_text (generate_pwl_text st)) = pwl_cmd st
   \<and> pwl_cmd init_tool = ''PWL(0 0 1e-06 0)''"
proof (intro conjI impI)
  show "pwl_cmd init_tool = ''PWL(0 0 1e-06 0)''"
    by (simp add: pwl_cmd_def init_tool_def fmt_g6_samples)
  show "py_strip (pwl_text (generate_pwl_text st)) = pwl_cmd st"
    by (simp add: generate_pwl_text_def py_strip_pwl_cmd)
qed (simp_all add: pwl_cmd_def need_points_def)

theorem pwl_cmd_format_witness:
  "length (pwl_points (init_tool\<lparr>pwl_points := [(1, 0)]\<rparr>)) < 2
   \<and> pwl_cmd (init_tool\<lparr>pwl_points := [(1, 0)]\<rparr>) = ''Need at least 2 points''
   \<and> 2 \<le> length (pwl_points (init_tool\<lparr>pwl_points := [(1, 1), (0, 0)]\<rparr>))
   \<and> pwl_cmd (init_tool\<lparr>pwl_points := [(1, 1), (0, 0)]\<rparr>) = ''PWL(0 0 1 1)''"
  using pwl_cmd_format [of "init_tool\<lparr>pwl_points := [(1, 0)]\<rparr>"]
    pwl_cmd_format [of "init_tool\<lparr>pwl_points := [(1, 1), (0, 0)]\<rparr>"]
  by (simp add: init_tool_def fmt_g6_samples)

subsection \<open>Parsing the command\<close>

lemma snap_all_points:
  "pwl_points (fst (snap_all_points_to_grid st)) =
     (if grid_snap_enabled st then
        (case time_scale_of st of
           None \<Rightarrow> pwl_points st
         | Some ts \<Rightarrow>
             (case value_scale_of st of
                None \<Rightarrow> pwl_points st
              | Some vs \<Rightarrow> sort_key fst (map (snap_point st ts vs) (pwl_points st))))
      else pwl_points st)"
  by (simp add: snap_all_points_to_grid_def Let_def update_plot_frame split: option.splits)

lemma snap_all_selected:
  "selected_point (fst (snap_all_points_to_grid st)) = selected_point st"
  by (simp add: snap_all_points_to_grid_def Let_def update_plot_frame split: option.splits)

lemma parse_pairs_None_iff:
  "parse_pairs parts = None
     \<longleftrightarrow> odd (length parts) \<or> (\<exists>tok\<in>set parts. py_float tok = None)"
  by (induction parts rule: parse_pairs.induct) (auto split: option.splits)

lemma parse_pairs_Some:
  "parse_pairs parts = Some ps \<Longrightarrow>
     length parts = 2 * length ps
     \<and> (\<forall>i<length ps. ps ! i = (max 0 (the (py_float (parts ! (2 * i)))),
                                 the (py_float (parts ! (2 * i + 1)))))"
proof (induction parts arbitrary: ps rule: parse_pairs.induct)
  case 1
  then show ?case by simp
next
  case (2 a)
  then show ?case by simp
next
  case (3 a b parts)
  from "3.prems" obtain t v qs where
    a: "py_float a = Some t" and b: "py_float b = Some v"
    and qs: "parse_pairs parts = Some qs"
    and ps: "ps = (if t < 0 then 0 else t, v) # qs"
    by (auto split: option.splits)
  from "3.IH" [OF a b qs] have
    len: "length parts = 2 * length qs"
    and nth: "\<And>i. i < length qs \<Longrightarrow>
      qs ! i = (max 0 (the (py_float (parts ! (2 * i)))), the (py_float (parts ! (2 * i + 1))))"
    by auto
  show ?case
  proof (intro conjI allI impI)
    show "length (a # b # parts) = 2 * length ps"
      using len ps by simp
  next
    fix i assume "i < length ps"
    show "ps ! i = (max 0 (the (py_float ((a # b # parts) ! (2 * i)))),
                    the (py_float ((a # b # parts) ! (2 * i + 1))))"
    proof (cases i)
      case 0
      then show ?thesis using a b ps by (simp add: max_def)
    next
      case (Suc j)
      with \<open>i < length ps\<close> ps have "j < length qs" by simp
      from nth [OF this] Suc ps show ?thesis by simp
    qed
  qed
qed


lemma snap_point_upd [simp]:
  "snap_point (st\<lparr>pwl_points := ps, selected_point := sel\<rparr>) = snap_point st"
  by (intro ext) (simp add: snap_point_def snap_to_grid_def split: prod.splits)

lemma need_points_parts: "length (py_split (pwl_content need_points)) = 5"
  by (simp add: need_points_def pwl_content_def py_split_def py_isspace_def)

lemma empty_parts: "py_split (pwl_content []) = []"
  by (simp add: pwl_content_def py_split_def)


lemma parse_ok:
  assumes len: "4 \<le> length (pwl_parts st)" and ev: "even (length (pwl_parts st))"
    and ok: "\<forall>tok\<in>set (pwl_parts st). py_float tok \<noteq> None"
  shows "\<exists>ps. parse_pairs (pwl_parts st) = Some ps
     \<and> selected_point (parse_pwl_text st) = None
     \<and> pwl_points (parse_pwl_text st) =
         (if grid_snap_enabled st then
            (case time_scale_of st of
               None \<Rightarrow> sort_key fst ps
             | Some ts \<Rightarrow>
                 (case value_scale_of st of
                    None \<Rightarrow> sort_key fst ps
                  | Some vs \<Rightarrow> sort_key fst (map (snap_point st ts vs) (sort_key fst ps))))
          else sort_key fst ps)"
proof -
  from ev ok obtain ps where ps: "parse_pairs (pwl_parts st) = Some ps"
    using parse_pairs_None_iff [of "pwl_parts st"] by (cases "parse_pairs (pwl_parts st)") auto
  from parse_pairs_Some [OF ps] len have l2: "2 \<le> length ps" by simp
  have ne: "py_strip (pwl_text st) \<noteq> []"
    using len empty_parts by (auto simp: pwl_parts_def)
  have ns: "py_strip (pwl_text st) \<noteq> need_points"
    using ev need_points_parts by (auto simp: pwl_parts_def)
  have m: "length (pwl_parts st) mod 2 = 0" using ev by presburger
  have eq: "parse_pwl_text st =
      (let st1 = st\<lparr>pwl_points := sort_key fst ps, selected_point := None\<rparr>
       in if grid_snap_enabled st1 then fst (snap_all_points_to_grid st1)
          else fst (update_plot st1))"
    using ne ns len m ps l2
    by (simp add: parse_pwl_text_def Let_def pwl_parts_def [symmetric])
  show ?thesis
    by (rule exI [of _ ps])
       (simp add: ps eq Let_def snap_all_points snap_all_selected update_plot_frame
          time_scale_of_def value_scale_of_def split: option.splits)
qed

lemma pwl_content_wrapper: "pwl_content (''PWL('' @ c @ '')'') = c"
  by (simp add: pwl_content_def butlast_append)


lemma split_ws_token:
  assumes "list_all (\<lambda>c. \<not> py_isspace c) t"
  shows "split_ws cur (t @ rest) = split_ws (cur @ t) rest"
  using assms by (induction t arbitrary: cur) simp_all

lemma split_ws_join:
  assumes "\<forall>t\<in>set toks. t \<noteq> [] \<and> list_all (\<lambda>c. \<not> py_isspace c) t"
  shows "split_ws [] (join_sp toks) = toks"
  using assms
proof (induction toks rule: join_sp.induct)
  case 1
  then show ?case by simp
next
  case (2 s)
  then have "split_ws [] (s @ []) = split_ws ([] @ s) []" by (intro split_ws_token) simp
  with 2 show ?case by simp
next
  case (3 s t ss)
  then have "split_ws [] (s @ '' '' @ join_sp (t # ss)) = split_ws ([] @ s) ('' '' @ join_sp (t # ss))"
    by (intro split_ws_token) simp
  moreover have "py_isspace (CHR '' '')" by (simp add: py_isspace_def)
  ultimately show ?case using 3 by simp
qed












subsection \<open>Loading a snapshot\<close>

lemma then_run_frame:
  assumes "\<And>s. pwl_points (fst (f s)) = pwl_points s"
    and "\<And>s. grid_snap_enabled (fst (f s)) = grid_snap_enabled s"
  shows "pwl_points (fst (then_run r f)) = pwl_points (fst r)"
    and "grid_snap_enabled (fst (then_run r f)) = grid_snap_enabled (fst r)"
  using assms by (cases r; simp add: then_run_def split: option.splits)+

lemma set_range_vars_frame:
  "pwl_points (fst (set_range_vars xr yr st)) = pwl_points st"
  "grid_snap_enabled (fst (set_range_vars xr yr st)) = grid_snap_enabled st"
  by (simp_all add: set_range_vars_def Let_def set_x_min_var_def)

lemma on_source_type_change_frame:
  "pwl_points (fst (on_source_type_change st)) = pwl_points st"
  "grid_snap_enabled (fst (on_source_type_change st)) = grid_snap_enabled st"
  by (simp_all add: on_source_type_change_def Let_def update_plot_frame)

lemma update_range_frame:
  "pwl_points (fst (update_range st)) = pwl_points st"
  "grid_snap_enabled (fst (update_range st)) = grid_snap_enabled st"
  by (simp_all add: update_range_def Let_def update_plot_frame set_x_min_var_def)

lemma validate_grid_size_frame:
  "pwl_points (validate_grid_size st) = pwl_points st"
  "grid_snap_enabled (validate_grid_size st) = grid_snap_enabled st"
  by (simp_all add: validate_grid_size_def Let_def)

lemma finish_load_frame:
  "pwl_points (case r of (s, None) \<Rightarrow> messagebox a s | (s, Some e) \<Rightarrow> messagebox b s)
     = pwl_points (fst r)"
  "grid_snap_enabled (case r of (s, None) \<Rightarrow> messagebox a s | (s, Some e) \<Rightarrow> messagebox b s)
     = grid_snap_enabled (fst r)"
  by (cases r; cases "snd r"; simp add: messagebox_def)+

lemmas load_frames =
  finish_load_frame then_run_frame update_range_frame on_source_type_change_frame
  set_range_vars_frame validate_grid_size_frame

lemma load_file_points:
  "pwl_points (load_file st (Document data))
     = get_or (doc_pwl_points data) [(0, 0), (1 / 10 ^ 6, 0)]"
  by (simp add: load_file_def Let_def load_frames)

lemma load_file_grid:
  "grid_snap_enabled (load_file st (Document data))
     = get_or (doc_grid_snap_enabled data) False"
  by (simp add: load_file_def Let_def load_frames)

lemma pwl_cmd_loaded:
  "pwl_points st = [(0, 0), (3 / 2000000, 1)] \<Longrightarrow> pwl_cmd st = ''PWL(0 0 1.5e-06 1)''"
  by (simp add: pwl_cmd_def fmt_g6_samples)

lemma strip_samples:
  "py_strip ''PWL(0 0 1e-06 0)'' = ''PWL(0 0 1e-06 0)''"
  "py_strip ''PWL(0 0 1.5e-06 1)'' = ''PWL(0 0 1.5e-06 1)''"
  by (simp_all add: py_strip_def py_isspace_def)

lemma load_off_grid: "load_file init_tool (Document off_grid_doc) = loaded"
  by (simp add: load_file_def off_grid_doc_def init_tool_def loaded_def Let_def get_or_def
      validate_grid_size_def set_range_vars_def set_x_min_var_def then_run_def
      on_source_type_change_def update_range_def update_plot_def time_scale_of_def
      value_scale_of_def scales_init generate_pwl_text_def pwl_cmd_loaded strip_samples
      messagebox_def)

lemma parts_loaded: "pwl_parts loaded = [''0'', ''0'', ''1.5e-06'', ''1'']"
  by (simp add: pwl_parts_def loaded_def strip_samples pwl_content_def py_split_def
      py_isspace_def)

lemma loaded_fields:
  "grid_snap_enabled loaded"
  "pwl_points loaded = [(0, 0), (3 / 2000000, 1)]"
  "time_scale_of loaded = Some (1 / 1000000)"
  "value_scale_of loaded = Some (1 / 1000)"
  "pwl_text loaded = ''PWL(0 0 1.5e-06 1)''"
  by (simp_all add: loaded_def init_tool_def time_scale_of_def value_scale_of_def scales_init)

lemma snap_point_loaded:
  "snap_point loaded (1 / 1000000) (1 / 1000) (0, 0) = (0, 0)"
  "snap_point loaded (1 / 1000000) (1 / 1000) (3 / 2000000, 1) = (1 / 500000, 1)"
  by (simp_all add: snap_point_def snap_to_grid_def loaded_def init_tool_def py_round_def)

lemma parse_loaded:
  "pwl_points (parse_pwl_text loaded) = [(0, 0), (1 / 500000, 1)]"
proof -
  have "4 \<le> length (pwl_parts loaded)" "even (length (pwl_parts loaded))"
    "\<forall>tok\<in>set (pwl_parts loaded). py_float tok \<noteq> None"
    by (simp_all add: parts_loaded py_float_samples del: not_None_eq)
  from parse_ok [OF this] show ?thesis
    by (auto simp: parts_loaded py_float_samples loaded_fields snap_point_loaded)
qed


text \<open>
  Claim C10. After \<open>load_file\<close> on a document the stored points are the pairs of the
  document (or the two default points), whatever the grid settings loaded with them,
  while a successful parse with snapping on stores the snapped points. Loading
  \<open>off_grid_doc\<close>, whose second point lies at 1.5 microseconds on a grid of one
  microsecond, keeps that point; parsing the text the load wrote moves it to 2
  microseconds.
\<close>

theorem load_file_keeps_points:
  "pwl_points (load_file st (Document data))
     = get_or (doc_pwl_points data) [(0, 0), (1 / 10 ^ 6, 0)]
   \<and> grid_snap_enabled (load_file st (Document data))
     = get_or (doc_grid_snap_enabled data) False
   \<and> (grid_snap_enabled st \<and> time_scale_of st = Some ts \<and> value_scale_of st = Some vs
        \<and> 4 \<le> length (pwl_parts st) \<and> even (length (pwl_parts st))
        \<and> (\<forall>tok\<in>set (pwl_parts st). py_float tok \<noteq> None)
       \<longrightarrow> (\<exists>ps. parse_pairs (pwl_parts st) = Some ps
              \<and> pwl_points (parse_pwl_text st)
                  = sort_key fst (map (snap_point st ts vs) (sort_key fst ps))))
   \<and> load_file init_tool (Document off_grid_doc) = loaded
   \<and> grid_snap_enabled loaded
   \<and> pwl_points loaded = [(0, 0), (3 / 2000000, 1)]
   \<and> snap_point loaded (1 / 10 ^ 6) (1 / 10 ^ 3) (3 / 2000000, 1) = (1 / 500000, 1)
   \<and> pwl_points (parse_pwl_text loaded) = [(0, 0), (1 / 500000, 1)]"
proof (intro conjI impI)
  assume a: "grid_snap_enabled st \<and> time_scale_of st = Some ts \<and> value_scale_of st = Some vs
        \<and> 4 \<le> length (pwl_parts st) \<and> even (length (pwl_parts st))
        \<and> (\<forall>tok\<in>set (pwl_parts st). py_float tok \<noteq> None)"
  then have "4 \<le> length (pwl_parts st)" "even (length (pwl_parts st))"
    "\<forall>tok\<in>set (pwl_parts st). py_float tok \<noteq> None"
    by simp_all
  from parse_ok [OF this] a
  show "\<exists>ps. parse_pairs (pwl_parts st) = Some ps
      \<and> pwl_points (parse_pwl_text st)
          = sort_key fst (map (snap_point st ts vs) (sort_key fst ps))"
    by auto
qed (simp_all add: load_file_points load_file_grid load_off_grid loaded_fields
      snap_point_loaded parse_loaded)

theorem load_file_keeps_points_witness:
  "pwl_points (load_file loaded (Document bare_doc)) = [(1 / 4000000, 2), (0, 0)]
   \<and> grid_snap_enabled (load_file loaded (Document bare_doc))
   \<and> grid_snap_enabled loaded \<and> 4 \<le> length (pwl_parts loaded)
   \<and> (\<exists>ps. parse_pairs (pwl_parts loaded) = Some ps
         \<and> pwl_points (parse_pwl_text loaded)
            = sort_key fst (map (snap_point loaded (1 / 1000000) (1 / 1000)) (sort_key fst ps)))"
proof -
  have h: "grid_snap_enabled loaded \<and> time_scale_of loaded = Some (1 / 1000000)
        \<and> value_scale_of loaded = Some (1 / 1000)
        \<and> 4 \<le> length (pwl_parts loaded) \<and> even (length (pwl_parts loaded))
        \<and> (\<forall>tok\<in>set (pwl_parts loaded). py_float tok \<noteq> None)"
    by (simp add: loaded_fields parts_loaded py_float_samples del: not_None_eq)
  note t = load_file_keeps_points [of loaded bare_doc "1 / 1000000" "1 / 1000"]
  from t have "pwl_points (load_file loaded (Document bare_doc))
      = get_or (doc_pwl_points bare_doc) [(0, 0), (1 / 10 ^ 6, 0)]"
    by (rule conjunct1)
  then have 1: "pwl_points (load_file loaded (Document bare_doc)) = [(1 / 4000000, 2), (0, 0)]"
    by (simp add: bare_doc_def get_or_def)
  from t have "grid_snap_enabled (load_file loaded (Document bare_doc))
      = get_or (doc_grid_snap_enabled bare_doc) False"
    by blast
  then have 2: "grid_snap_enabled (load_file loaded (Document bare_doc))"
    by (simp add: bare_doc_def get_or_def)
  from t h have 3: "\<exists>ps. parse_pairs (pwl_parts loaded) = Some ps
         \<and> pwl_points (parse_pwl_text loaded)
            = sort_key fst (map (snap_point loaded (1 / 1000000) (1 / 1000)) (sort_key fst ps))"
    by blast
  from 1 2 3 h show ?thesis by blast
qed

subsection \<open>Unique times\<close>

lemma is_duplicate_iff:
  "is_duplicate mo ex c \<longleftrightarrow> (\<exists>e\<in>set ex. \<bar>c - e\<bar> < mo / 2)"
  by (simp add: is_duplicate_def list_ex_iff)

lemma probe_Some:
  "probe tg mo ex n a cur dir = Some r \<Longrightarrow> \<not> is_duplicate mo ex r \<and> 0 \<le> r"
  by (induction n arbitrary: a cur dir) (auto split: if_splits)

lemma probe_form:
  assumes "0 \<le> mo"
  shows "probe tg mo ex n a cur dir = Some r \<Longrightarrow> \<exists>j\<le>a. cur = tg + mo * real j \<Longrightarrow>
         (dir \<le> 0 \<longrightarrow> tg < 0) \<Longrightarrow> \<exists>k. k + 1 \<le> a + n \<and> r = tg + mo * real k"
proof (induction n arbitrary: a cur dir)
  case 0
  then show ?case by simp
next
  case (Suc n)
  have ma: "0 \<le> mo * real a" using assms by simp
  show ?case
  proof (cases "\<not> is_duplicate mo ex cur \<and> 0 \<le> cur")
    case True
    with Suc.prems(1) have "r = cur" by simp
    with Suc.prems(2) obtain j where "j \<le> a" "r = tg + mo * real j" by auto
    then have "j + 1 \<le> a + Suc n \<and> r = tg + mo * real j" by simp
    then show ?thesis by blast
  next
    case False
    note nf = False
    show ?thesis
    proof (cases "0 < dir")
      case True
      show ?thesis
      proof (cases "tg + mo * real a < 0")
        case True
        with \<open>0 < dir\<close> nf Suc.prems(1)
        have p: "probe tg mo ex n (Suc a) tg (- 1) = Some r" by (auto split: if_splits)
        from True ma have "tg < 0" by linarith
        then have "\<exists>k. k + 1 \<le> Suc a + n \<and> r = tg + mo * real k"
          by (intro Suc.IH [OF p]) (auto intro: exI [of _ 0])
        then show ?thesis by auto
      next
        case False
        with \<open>0 < dir\<close> nf Suc.prems(1)
        have p: "probe tg mo ex n (Suc a) (tg + mo * real a) dir = Some r"
          by (auto split: if_splits)
        have "\<exists>k. k + 1 \<le> Suc a + n \<and> r = tg + mo * real k"
          using \<open>0 < dir\<close> by (intro Suc.IH [OF p]) (auto intro: exI [of _ a])
        then show ?thesis by auto
      qed
    next
      case False
      with Suc.prems(3) have neg: "tg < 0" by simp
      with ma have "tg - mo * real a < 0" by linarith
      with False nf Suc.prems(1)
      have p: "probe tg mo ex n (Suc a) (tg + mo * (real a + 1)) dir = Some r"
        by (auto split: if_splits)
      have "\<exists>k. k + 1 \<le> Suc a + n \<and> r = tg + mo * real k"
        using neg by (intro Suc.IH [OF p]) (auto intro: exI [of _ "Suc a"] simp: algebra_simps)
      then show ?thesis by auto
    qed
  qed
qed

lemma probe_None_first:
  "probe tg mo ex (Suc n) a cur dir = None \<Longrightarrow> is_duplicate mo ex cur \<or> cur < 0"
  by (auto split: if_splits)

lemma existing_times_set:
  "set (existing_times_from k ex ps)
     = {fst (ps ! i) | i. i < length ps \<and> Some (k + i) \<noteq> ex}"
proof (induction ps arbitrary: k)
  case Nil
  then show ?case by simp
next
  case (Cons p ps)
  obtain t v where p: "p = (t, v)" by (cases p)
  have *: "{fst ((p # ps) ! i) | i. i < length (p # ps) \<and> Some (k + i) \<noteq> ex}
      = (if Some k \<noteq> ex then {t} else {})
        \<union> {fst (ps ! i) | i. i < length ps \<and> Some (Suc k + i) \<noteq> ex}"
    (is "?L = ?R")
  proof (intro set_eqI iffI)
    fix x assume "x \<in> ?L"
    then obtain i where i: "i < length (p # ps)" "Some (k + i) \<noteq> ex" "x = fst ((p # ps) ! i)"
      by auto
    show "x \<in> ?R"
    proof (cases i)
      case 0
      with i p show ?thesis by simp
    next
      case (Suc j)
      with i have "j < length ps" "Some (Suc k + j) \<noteq> ex" "x = fst (ps ! j)" by simp_all
      then show ?thesis by auto
    qed
  next
    fix x assume "x \<in> ?R"
    then consider "Some k \<noteq> ex" "x = t"
      | j where "j < length ps" "Some (Suc k + j) \<noteq> ex" "x = fst (ps ! j)"
      by (auto split: if_splits)
    then show "x \<in> ?L"
    proof cases
      case 1
      then have "0 < length (p # ps) \<and> Some (k + 0) \<noteq> ex \<and> x = fst ((p # ps) ! 0)"
        using p by simp
      then show ?thesis by blast
    next
      case 2
      then have "Suc j < length (p # ps) \<and> Some (k + Suc j) \<noteq> ex
          \<and> x = fst ((p # ps) ! Suc j)"
        by simp
      then show ?thesis by blast
    qed
  qed
  show ?case
    unfolding * using Cons.IH [of "Suc k"] p by (auto split: if_splits)
qed

lemma min_offset_pos: "0 < ts \<Longrightarrow> 0 < min_offset_of st ts"
  by (simp add: min_offset_of_def Let_def max_def)


lemma find_unique_time_props:
  assumes ts: "time_scale_of st = Some ts"
  shows "\<exists>r. find_unique_time st target ex = Inr r
      \<and> (\<forall>i<length (pwl_points st).
            Some i \<noteq> ex \<longrightarrow> min_offset_of st ts / 2 \<le> \<bar>r - fst (pwl_points st ! i)\<bar>)
      \<and> (0 \<le> target \<or> (\<forall>p\<in>set (pwl_points st). 0 \<le> fst p) \<longrightarrow> 0 \<le> r)
      \<and> ((\<exists>k\<le>99. r = target + min_offset_of st ts * real k)
          \<or> r = (if existing_times_from 0 ex (pwl_points st) = [] then max 0 target
                 else Max (set (existing_times_from 0 ex (pwl_points st)))
                      + min_offset_of st ts))"
proof -
  define mo where "mo = min_offset_of st ts"
  define E where "E = existing_times_from 0 ex (pwl_points st)"
  from ts have "0 < ts" by (auto simp: time_scale_of_def dest: time_prefixes_pos)
  then have mo: "0 < mo" by (simp add: mo_def min_offset_pos)
  have E: "set E = {fst (pwl_points st ! i) | i. i < length (pwl_points st) \<and> Some i \<noteq> ex}"
    using existing_times_set [of 0 ex "pwl_points st"] by (simp add: E_def)
  have sub: "set E \<subseteq> fst ` set (pwl_points st)"
    unfolding E by (auto simp: in_set_conv_nth intro!: image_eqI)
  show ?thesis
  proof (cases "probe target mo E max_attempts 0 target 1")
    case (Some r)
    then have res: "find_unique_time st target ex = Inr r"
      by (simp add: find_unique_time_def ts Let_def mo_def E_def)
    from probe_Some [OF Some] have nd: "\<not> is_duplicate mo E r" and r0: "0 \<le> r" by simp_all
    have sep: "\<forall>i<length (pwl_points st). Some i \<noteq> ex \<longrightarrow> mo / 2 \<le> \<bar>r - fst (pwl_points st ! i)\<bar>"
    proof (intro allI impI)
      fix i assume "i < length (pwl_points st)" "Some i \<noteq> ex"
      then have "fst (pwl_points st ! i) \<in> set E" unfolding E by blast
      with nd show "mo / 2 \<le> \<bar>r - fst (pwl_points st ! i)\<bar>"
        by (auto simp: is_duplicate_iff not_less)
    qed
    from mo have "0 \<le> mo" by simp
    from probe_form [OF this Some] have "\<exists>k. k + 1 \<le> 0 + max_attempts \<and> r = target + mo * real k"
      by (auto intro: exI [of _ 0])
    then have "\<exists>k\<le>99. r = target + mo * real k"
      by (auto simp: max_attempts_def)
    with res sep r0 show ?thesis unfolding mo_def E_def by blast
  next
    case None
    show ?thesis
    proof (cases "E = []")
      case True
      with None have res: "find_unique_time st target ex = Inr (max 0 target)"
        by (simp add: find_unique_time_def ts Let_def mo_def E_def)
      have "\<forall>i<length (pwl_points st). Some i \<noteq> ex \<longrightarrow>
          mo / 2 \<le> \<bar>max 0 target - fst (pwl_points st ! i)\<bar>"
        using E True by auto
      with res True show ?thesis unfolding mo_def E_def by auto
    next
      case False
      with None have res: "find_unique_time st target ex = Inr (Max (set E) + mo)"
        by (simp add: find_unique_time_def ts Let_def mo_def E_def)
      have sep: "\<forall>i<length (pwl_points st). Some i \<noteq> ex \<longrightarrow>
          mo / 2 \<le> \<bar>Max (set E) + mo - fst (pwl_points st ! i)\<bar>"
      proof (intro allI impI)
        fix i assume "i < length (pwl_points st)" "Some i \<noteq> ex"
        then have "fst (pwl_points st ! i) \<in> set E" unfolding E by blast
        then have "fst (pwl_points st ! i) \<le> Max (set E)" by simp
        with mo show "mo / 2 \<le> \<bar>Max (set E) + mo - fst (pwl_points st ! i)\<bar>" by simp
      qed
      have nonneg: "0 \<le> Max (set E) + mo"
        if h: "0 \<le> target \<or> (\<forall>p\<in>set (pwl_points st). 0 \<le> fst p)"
      proof -
        from h consider "0 \<le> target" | "\<forall>p\<in>set (pwl_points st). 0 \<le> fst p" by blast
        then show ?thesis
        proof cases
          case 1
          from None have "probe target mo E (Suc 99) 0 target 1 = None"
            by (simp add: max_attempts_def)
          from probe_None_first [OF this] 1 have "is_duplicate mo E target" by simp
          then obtain e where e: "e \<in> set E" "\<bar>target - e\<bar> < mo / 2"
            by (auto simp: is_duplicate_iff)
          then have "e \<le> Max (set E)" by simp
          with e 1 mo show ?thesis by linarith
        next
          case 2
          from False have "Max (set E) \<in> set E" by simp
          with sub obtain p where "p \<in> set (pwl_points st)" "Max (set E) = fst p" by blast
          with 2 have "0 \<le> Max (set E)" by simp
          with mo show ?thesis by simp
        qed
      qed
      from res sep nonneg False show ?thesis unfolding mo_def E_def by auto
    qed
  qed
qed

lemma separated_nth:
  "separated d ts \<longleftrightarrow> (\<forall>i<length ts. \<forall>j<length ts. i \<noteq> j \<longrightarrow> d \<le> \<bar>ts ! i - ts ! j\<bar>)"
proof
  assume s: "separated d ts"
  show "\<forall>i<length ts. \<forall>j<length ts. i \<noteq> j \<longrightarrow> d \<le> \<bar>ts ! i - ts ! j\<bar>"
  proof (intro allI impI)
    fix i j assume ij: "i < length ts" "j < length ts" "i \<noteq> j"
    then consider "i < j" | "j < i" by linarith
    then show "d \<le> \<bar>ts ! i - ts ! j\<bar>"
    proof cases
      case 1
      with s ij show ?thesis by (simp add: separated_def sorted_wrt_iff_nth_less)
    next
      case 2
      with s ij have "d \<le> \<bar>ts ! j - ts ! i\<bar>"
        by (simp add: separated_def sorted_wrt_iff_nth_less)
      then show ?thesis by (simp add: abs_minus_commute)
    qed
  qed
next
  assume "\<forall>i<length ts. \<forall>j<length ts. i \<noteq> j \<longrightarrow> d \<le> \<bar>ts ! i - ts ! j\<bar>"
  then show "separated d ts"
    by (simp add: separated_def sorted_wrt_iff_nth_less)
qed

lemma separated_insert:
  assumes "separated d (map fst (xs @ ys))"
    and "\<forall>p\<in>set (xs @ ys). d \<le> \<bar>fst x - fst p\<bar>"
  shows "separated d (map fst (xs @ x # ys))"
  using assms by (auto simp: separated_def sorted_wrt_append abs_minus_commute)

lemma separated_remove:
  assumes "separated d (map fst (xs @ x # ys))"
  shows "separated d (map fst (xs @ ys))"
  using assms by (auto simp: separated_def sorted_wrt_append)

lemma separated_Cons:
  "separated d (t # ts) \<longleftrightarrow> (\<forall>u\<in>set ts. d \<le> \<bar>t - u\<bar>) \<and> separated d ts"
  by (simp add: separated_def)

lemma separated_insort_real:
  "separated d (insort_key (\<lambda>x. x) t ts) \<longleftrightarrow> (\<forall>u\<in>set ts. d \<le> \<bar>t - u\<bar>) \<and> separated d ts"
proof (induction ts)
  case Nil
  then show ?case by (simp add: separated_def)
next
  case (Cons a ts)
  have sym: "d \<le> \<bar>a - t\<bar> \<longleftrightarrow> d \<le> \<bar>t - a\<bar>" by (simp add: abs_minus_commute)
  show ?case
  proof (cases "t \<le> a")
    case True
    then show ?thesis by (auto simp: separated_Cons)
  next
    case False
    then show ?thesis using Cons.IH sym by (auto simp: separated_Cons set_insort_key)
  qed
qed

lemma map_fst_insort:
  "map fst (insort_key fst x xs) = insort_key (\<lambda>x. x) (fst x) (map fst xs)"
  by (induction xs) auto

lemma separated_insort:
  "separated d (map fst (insort_key fst x xs))
     \<longleftrightarrow> (\<forall>y\<in>set xs. d \<le> \<bar>fst x - fst y\<bar>) \<and> separated d (map fst xs)"
  by (simp add: map_fst_insort separated_insort_real)

lemma separated_sort_key:
  "separated d (map fst (sort_key fst xs)) \<longleftrightarrow> separated d (map fst xs)"
proof (induction xs)
  case Nil
  then show ?case by simp
next
  case (Cons x xs)
  have "separated d (map fst (sort_key fst (x # xs)))
      \<longleftrightarrow> (\<forall>y\<in>set xs. d \<le> \<bar>fst x - fst y\<bar>) \<and> separated d (map fst xs)"
    using Cons.IH by (simp add: separated_insort)
  also have "\<dots> \<longleftrightarrow> separated d (map fst (x # xs))"
    by (simp add: separated_Cons)
  finally show ?case .
qed

lemma scan_insert_index_eq:
  "scan_insert_index u i i ps = i + length (takeWhile (\<lambda>p. fst p < u) ps)"
  by (induction ps arbitrary: i) auto

lemma insort_key_takeWhile:
  "insort_key fst (u, v) ps
     = takeWhile (\<lambda>p. fst p < u) ps @ (u, v) # dropWhile (\<lambda>p. fst p < u) ps"
  by (induction ps) auto

lemma insert_is_insort:
  "list_insert (scan_insert_index u 0 0 ps) (u, v) ps = insort_key fst (u, v) ps"
  by (simp add: scan_insert_index_eq insort_key_takeWhile list_insert_def
      takeWhile_eq_take [symmetric] dropWhile_eq_drop [symmetric])

lemma existing_times_None: "existing_times_from k None ps = map fst ps"
  by (induction ps arbitrary: k) auto


lemma update_plot_ok:
  assumes "time_scale_of st = Some ts" and "value_scale_of st = Some vs"
  shows "snd (update_plot st) = None"
  using assms by (simp add: update_plot_def)

lemma scales_upd [simp]:
  "time_scale_of (st\<lparr>pwl_points := ps\<rparr>) = time_scale_of st"
  "value_scale_of (st\<lparr>pwl_points := ps\<rparr>) = value_scale_of st"
  "time_scale_of (st\<lparr>selected_point := s\<rparr>) = time_scale_of st"
  "value_scale_of (st\<lparr>selected_point := s\<rparr>) = value_scale_of st"
  by (simp_all add: time_scale_of_def value_scale_of_def)

lemma add_point_at_props:
  assumes ts: "time_scale_of st = Some ts" and vs: "value_scale_of st = Some vs"
    and srt: "sorted (map fst (pwl_points st))"
    and sep: "separated (min_offset_of st ts / 2) (map fst (pwl_points st))"
  shows "snd (add_point_at st x y) = None
     \<and> sorted (map fst (pwl_points (fst (add_point_at st x y))))
     \<and> separated (min_offset_of st ts / 2) (map fst (pwl_points (fst (add_point_at st x y))))
     \<and> length (pwl_points (fst (add_point_at st x y))) = Suc (length (pwl_points st))"
proof -
  obtain t_s v_s where sn:
    "snap_to_grid st (case x of None \<Rightarrow> 0 | Some a \<Rightarrow> a) (case y of None \<Rightarrow> 0 | Some b \<Rightarrow> b)
       = (t_s, v_s)"
    by (cases "snap_to_grid st (case x of None \<Rightarrow> 0 | Some a \<Rightarrow> a)
                 (case y of None \<Rightarrow> 0 | Some b \<Rightarrow> b)")
  from find_unique_time_props [OF ts, of "max 0 (t_s * ts)" None]
  obtain u where u: "find_unique_time st (max 0 (t_s * ts)) None = Inr u"
    and far: "\<forall>i<length (pwl_points st).
        min_offset_of st ts / 2 \<le> \<bar>u - fst (pwl_points st ! i)\<bar>"
    by auto
  have eq: "add_point_at st x y
      = update_plot (st\<lparr>pwl_points := insort_key fst (u, v_s * vs) (pwl_points st)\<rparr>)"
    by (simp add: add_point_at_def ts vs sn u Let_def insert_is_insort)
  have far': "\<forall>p\<in>set (pwl_points st). min_offset_of st ts / 2 \<le> \<bar>fst (u, v_s * vs) - fst p\<bar>"
  proof
    fix p assume "p \<in> set (pwl_points st)"
    then obtain i where "i < length (pwl_points st)" "p = pwl_points st ! i"
      by (auto simp: in_set_conv_nth)
    with far show "min_offset_of st ts / 2 \<le> \<bar>fst (u, v_s * vs) - fst p\<bar>" by simp
  qed
  show ?thesis
    unfolding eq using far' srt sep
    by (simp add: update_plot_frame update_plot_ok [OF _ _] ts vs
        sorted_insort_key separated_insort del: insort_key.simps)
qed

lemma move_point_props:
  assumes ts: "time_scale_of st = Some ts" and vs: "value_scale_of st = Some vs"
    and sep: "separated (min_offset_of st ts / 2) (map fst (pwl_points st))"
    and sel: "selected_point st = Some sel" and lt: "sel < length (pwl_points st)"
  shows "snd (move_point st x y) = None
     \<and> sorted (map fst (pwl_points (fst (move_point st x y))))
     \<and> separated (min_offset_of st ts / 2) (map fst (pwl_points (fst (move_point st x y))))
     \<and> length (pwl_points (fst (move_point st x y))) = length (pwl_points st)"
proof -
  obtain t_s v_s where sn:
    "snap_to_grid st (case x of None \<Rightarrow> 0 | Some a \<Rightarrow> a) (case y of None \<Rightarrow> 0 | Some b \<Rightarrow> b)
       = (t_s, v_s)"
    by (cases "snap_to_grid st (case x of None \<Rightarrow> 0 | Some a \<Rightarrow> a)
                 (case y of None \<Rightarrow> 0 | Some b \<Rightarrow> b)")
  let ?pts = "pwl_points st"
  let ?d = "min_offset_of st ts / 2"
  from find_unique_time_props [OF ts, of "max 0 (t_s * ts)" "Some sel"]
  obtain u where u: "find_unique_time st (max 0 (t_s * ts)) (Some sel) = Inr u"
    and far: "\<forall>i<length ?pts. i \<noteq> sel \<longrightarrow> ?d \<le> \<bar>u - fst (?pts ! i)\<bar>"
    by auto
  let ?new = "sort_key fst (?pts[sel := (u, v_s * vs)])"
  have upd: "?pts[sel := (u, v_s * vs)] = take sel ?pts @ (u, v_s * vs) # drop (Suc sel) ?pts"
    using lt by (rule upd_conv_take_nth_drop)
  have "separated ?d (map fst (take sel ?pts @ ?pts ! sel # drop (Suc sel) ?pts))"
    using sep id_take_nth_drop [OF lt] by simp
  then have rest: "separated ?d (map fst (take sel ?pts @ drop (Suc sel) ?pts))"
    by (rule separated_remove)
  have others: "\<forall>p\<in>set (take sel ?pts @ drop (Suc sel) ?pts). ?d \<le> \<bar>fst (u, v_s * vs) - fst p\<bar>"
  proof
    fix p assume "p \<in> set (take sel ?pts @ drop (Suc sel) ?pts)"
    then consider "p \<in> set (take sel ?pts)" | "p \<in> set (drop (Suc sel) ?pts)" by auto
    then obtain i where "i < length ?pts" "i \<noteq> sel" "p = ?pts ! i"
    proof cases
      case 1
      then obtain i where "i < length (take sel ?pts)" "take sel ?pts ! i = p"
        by (auto simp: in_set_conv_nth)
      then have "i < length ?pts" "i \<noteq> sel" "p = ?pts ! i" by auto
      then show ?thesis by (rule that)
    next
      case 2
      then obtain i where "i < length (drop (Suc sel) ?pts)" "drop (Suc sel) ?pts ! i = p"
        by (auto simp: in_set_conv_nth)
      then have "Suc sel + i < length ?pts" "Suc sel + i \<noteq> sel" "p = ?pts ! (Suc sel + i)"
        by auto
      then show ?thesis by (rule that)
    qed
    with far show "?d \<le> \<bar>fst (u, v_s * vs) - fst p\<bar>" by simp
  qed
  have sepn: "separated ?d (map fst ?new)"
    unfolding separated_sort_key upd using rest others by (rule separated_insert)
  have eq: "move_point st x y
      = update_plot
          (case relocate u (v_s * vs) 0 ?new of
             None \<Rightarrow> st\<lparr>pwl_points := ?new\<rparr>
           | Some i \<Rightarrow> st\<lparr>pwl_points := ?new, selected_point := Some i\<rparr>)"
    using lt by (simp add: move_point_def sel ts vs sn u Let_def)
  show ?thesis
    unfolding eq using sepn
    by (cases "relocate u (v_s * vs) 0 ?new")
       (simp_all add: update_plot_frame update_plot_ok [OF _ _] ts vs)
qed

lemma probe_numeral:
  "probe tg mo ex (numeral k) a cur dir =
     (if \<not> is_duplicate mo ex cur \<and> 0 \<le> cur then Some cur
      else if 0 < dir then
        (if tg + mo * real a < 0 then probe tg mo ex (pred_numeral k) (Suc a) tg (- 1)
         else probe tg mo ex (pred_numeral k) (Suc a) (tg + mo * real a) dir)
      else
        (if tg - mo * real a < 0
         then probe tg mo ex (pred_numeral k) (Suc a) (tg + mo * (real a + 1)) dir
         else probe tg mo ex (pred_numeral k) (Suc a) (tg - mo * real a) dir))"
  unfolding numeral_eq_Suc [of k] by simp

lemma probe_all_negative:
  assumes "0 \<le> mo"
  shows "tg + mo * real (a + n) < 0 \<Longrightarrow> cur < 0 \<Longrightarrow> probe tg mo ex n a cur dir = None"
proof (induction n arbitrary: a cur dir)
  case 0
  then show ?case by simp
next
  case (Suc n)
  have le: "mo * real a \<le> mo * real (a + Suc n)" "mo * (real a + 1) \<le> mo * real (a + Suc n)"
    using assms by (simp_all add: mult_left_mono)
  have ma: "0 \<le> mo * real a" using assms by simp
  from Suc.prems le ma have neg: "tg < 0" "tg + mo * real a < 0" "tg + mo * (real a + 1) < 0"
    "tg - mo * real a < 0"
    by linarith+
  have nx: "tg + mo * real (Suc a + n) < 0" using Suc.prems(1) by simp
  from Suc.prems(2) neg show ?case
    by (auto simp: Suc.IH [OF nx])
qed

lemma init_scales:
  "time_scale_of (init_tool\<lparr>pwl_points := ps, selected_point := s\<rparr>) = Some (1 / 1000000)"
  "value_scale_of (init_tool\<lparr>pwl_points := ps, selected_point := s\<rparr>) = Some (1 / 1000)"
  "time_scale_of init_tool = Some (1 / 1000000)"
  "value_scale_of init_tool = Some (1 / 1000)"
  "min_offset_of (init_tool\<lparr>pwl_points := ps, selected_point := s\<rparr>) (1 / 1000000)
     = 1 / 1000000000000"
  "min_offset_of init_tool (1 / 1000000) = 1 / 1000000000000"
  by (simp_all add: init_tool_def time_scale_of_def value_scale_of_def scales_init
      min_offset_of_def)

lemma probe_a:
  "probe 0 (1 / 1000000000000) [0, 1 / 1000000] 100 0 0 1 = Some (1 / 1000000000000)"
  by (simp add: probe_numeral is_duplicate_def)

lemma fut_a: "find_unique_time init_tool 0 None = Inr (1 / 1000000000000)"
  by (simp add: find_unique_time_def init_scales max_attempts_def)
     (simp add: init_tool_def probe_a)


text \<open>
  Claim C2, as amended. In a state whose time unit is registered, \<open>find_unique_time\<close>
  returns a value that lies at least half of \<open>min_offset\<close> away from every stored time
  other than the excluded one. The value is non-negative whenever the target is
  non-negative or no stored time is negative. It is one of the probes
  \<open>target + k * min_offset\<close> with \<open>k\<close> from 0 to 99, or the fallback: the largest
  remaining stored time plus \<open>min_offset\<close>, or \<open>max 0 target\<close> when no time remains.
\<close>

theorem find_unique_time_spec:
  assumes "time_scale_of st = Some ts"
  shows "\<exists>r. find_unique_time st target ex = Inr r
      \<and> (\<forall>i<length (pwl_points st).
            Some i \<noteq> ex \<longrightarrow> min_offset_of st ts / 2 \<le> \<bar>r - fst (pwl_points st ! i)\<bar>)
      \<and> (0 \<le> target \<or> (\<forall>p\<in>set (pwl_points st). 0 \<le> fst p) \<longrightarrow> 0 \<le> r)
      \<and> ((\<exists>k\<le>99. r = target + min_offset_of st ts * real k)
          \<or> r = (if existing_times_from 0 ex (pwl_points st) = [] then max 0 target
                 else Max (set (existing_times_from 0 ex (pwl_points st)))
                      + min_offset_of st ts))"
  using assms by (rule find_unique_time_props)

theorem find_unique_time_spec_witness:
  "time_scale_of init_tool = Some (1 / 1000000)
   \<and> find_unique_time init_tool 0 None = Inr (1 / 1000000000000)
   \<and> min_offset_of init_tool (1 / 1000000) / 2
       \<le> \<bar>1 / 1000000000000 - fst (pwl_points init_tool ! 0)\<bar>
   \<and> min_offset_of init_tool (1 / 1000000) / 2
       \<le> \<bar>1 / 1000000000000 - fst (pwl_points init_tool ! 1)\<bar>"
proof -
  have ts: "time_scale_of init_tool = Some (1 / 1000000)" by (simp add: init_scales)
  have len: "length (pwl_points init_tool) = 2" by (simp add: init_tool_def)
  from find_unique_time_spec [OF ts, of 0 None]
  obtain r where r: "find_unique_time init_tool 0 None = Inr r"
    and sep: "\<forall>i<length (pwl_points init_tool).
         min_offset_of init_tool (1 / 1000000) / 2 \<le> \<bar>r - fst (pwl_points init_tool ! i)\<bar>"
    by auto
  from r fut_a have "r = 1 / 1000000000000" by simp
  with sep len have
    "min_offset_of init_tool (1 / 1000000) / 2
       \<le> \<bar>1 / 1000000000000 - fst (pwl_points init_tool ! 0)\<bar>"
    "min_offset_of init_tool (1 / 1000000) / 2
       \<le> \<bar>1 / 1000000000000 - fst (pwl_points init_tool ! 1)\<bar>"
    by simp_all
  with ts fut_a show ?thesis by blast
qed

lemma probe_b:
  "probe (7 / 10000000000000) (1 / 1000000000000) [0, 1 / 1000000] 100 0
     (7 / 10000000000000) 1 = Some (7 / 10000000000000)"
  by (simp add: probe_numeral is_duplicate_def)

lemma probe_c:
  "probe (- 1) (1 / 1000000000000) [- 5, - 4] 100 0 (- 1) 1 = None"
  by (rule probe_all_negative) simp_all

text \<open>
  The claim as stated fails. In the initial state the target \<open>7e-13\<close> is returned as it
  is, although it lies within \<open>min_offset = 1e-12\<close> of the stored time \<open>0\<close>: the test
  is against half of \<open>min_offset\<close>. With the stored times \<open>-5\<close> and \<open>-4\<close> and the target
  \<open>-1\<close> every probe is negative and the fallback returned is negative too. With a time
  unit that is not in the table the lookup raises \<open>KeyError\<close>.
\<close>

theorem find_unique_time_counterexample:
  "find_unique_time init_tool (7 / 10 ^ 13) None = Inr (7 / 10 ^ 13)
   \<and> min_offset_of init_tool (1 / 10 ^ 6) = 1 / 10 ^ 12
   \<and> fst (pwl_points init_tool ! 0) = 0
   \<and> \<bar>7 / 10 ^ 13 - fst (pwl_points init_tool ! 0)\<bar> < min_offset_of init_tool (1 / 10 ^ 6)
   \<and> find_unique_time (init_tool\<lparr>pwl_points := [(- 5, 0), (- 4, 0)]\<rparr>) (- 1) None
       = Inr (- 4 + 1 / 10 ^ 12)
   \<and> find_unique_time (init_tool\<lparr>time_unit := ''h''\<rparr>) 0 None = Inl KeyError"
proof (intro conjI)
  show "find_unique_time init_tool (7 / 10 ^ 13) None = Inr (7 / 10 ^ 13)"
    by (simp add: find_unique_time_def init_scales max_attempts_def)
       (simp add: init_tool_def probe_b)
  show "min_offset_of init_tool (1 / 10 ^ 6) = 1 / 10 ^ 12"
    by (simp add: init_scales)
  show "fst (pwl_points init_tool ! 0) = 0"
    by (simp add: init_tool_def)
  show "\<bar>7 / 10 ^ 13 - fst (pwl_points init_tool ! 0)\<bar> < min_offset_of init_tool (1 / 10 ^ 6)"
    by (simp add: init_scales) (simp add: init_tool_def)
  show "find_unique_time (init_tool\<lparr>pwl_points := [(- 5, 0), (- 4, 0)]\<rparr>) (- 1) None
       = Inr (- 4 + 1 / 10 ^ 12)"
    by (simp add: find_unique_time_def time_scale_of_def min_offset_of_def max_attempts_def
        init_tool_def scales_init probe_c)
  show "find_unique_time (init_tool\<lparr>time_unit := ''h''\<rparr>) 0 None = Inl KeyError"
    by (simp add: find_unique_time_def time_scale_of_def time_prefixes_def mu_def)
qed

text \<open>
  Claim C3, as amended. In a state whose units are registered and whose points are
  sorted by time with any two times at least half of \<open>min_offset\<close> apart,
  \<open>add_point_at\<close> returns normally and leaves one point more, sorted by time and with
  any two times at least half of \<open>min_offset\<close> apart; so does \<open>move_point\<close> on a selected
  index within range, with the number of points unchanged.
\<close>

theorem insert_update_keep_invariant:
  assumes "time_scale_of st = Some ts" and "value_scale_of st = Some vs"
    and "sorted (map fst (pwl_points st))"
    and "separated (min_offset_of st ts / 2) (map fst (pwl_points st))"
  shows
    "(snd (add_point_at st x y) = None
      \<and> sorted (map fst (pwl_points (fst (add_point_at st x y))))
      \<and> separated (min_offset_of st ts / 2) (map fst (pwl_points (fst (add_point_at st x y))))
      \<and> length (pwl_points (fst (add_point_at st x y))) = Suc (length (pwl_points st)))
     \<and> (selected_point st = Some sel \<and> sel < length (pwl_points st) \<longrightarrow>
        snd (move_point st x y) = None
        \<and> sorted (map fst (pwl_points (fst (move_point st x y))))
        \<and> separated (min_offset_of st ts / 2) (map fst (pwl_points (fst (move_point st x y))))
        \<and> length (pwl_points (fst (move_point st x y))) = length (pwl_points st))"
  using add_point_at_props [OF assms] move_point_props [OF assms(1,2,4)] by blast

lemma fut_samples:
  "find_unique_time (init_tool\<lparr>selected_point := s\<rparr>) (1 / 200000) ex = Inr (1 / 200000)"
  "find_unique_time (init_tool\<lparr>selected_point := s\<rparr>) (7 / 10000000000000) ex
     = Inr (7 / 10000000000000)"
proof -
  have e: "existing_times_from 0 ex [(0, 0), (1 / 1000000, 0)]
      \<in> {[], [0], [1 / 1000000], [0, 1 / 1000000 :: real]}"
    by (cases ex) auto
  have mo: "min_offset_of (init_tool\<lparr>selected_point := s\<rparr>) (1 / 1000000) = 1 / 1000000000000"
    by (simp add: min_offset_of_def init_tool_def)
  have ts: "time_scale_of (init_tool\<lparr>selected_point := s\<rparr>) = Some (1 / 1000000)"
    by (simp add: time_scale_of_def init_tool_def scales_init)
  have pts: "pwl_points (init_tool\<lparr>selected_point := s\<rparr>) = [(0, 0), (1 / 1000000, 0)]"
    by (simp add: init_tool_def)
  show "find_unique_time (init_tool\<lparr>selected_point := s\<rparr>) (1 / 200000) ex = Inr (1 / 200000)"
    using e
    by (auto simp: find_unique_time_def ts init_scales mo pts max_attempts_def probe_numeral
        is_duplicate_def simp del: existing_times_from.simps)
  show "find_unique_time (init_tool\<lparr>selected_point := s\<rparr>) (7 / 10000000000000) ex
     = Inr (7 / 10000000000000)"
    using e
    by (auto simp: find_unique_time_def ts init_scales mo pts max_attempts_def probe_numeral
        is_duplicate_def simp del: existing_times_from.simps)
qed

lemma init_fields:
  "pwl_points (init_tool\<lparr>selected_point := s\<rparr>) = [(0, 0), (1 / 1000000, 0)]"
  "\<not> grid_snap_enabled (init_tool\<lparr>selected_point := s\<rparr>)"
  "selected_point (init_tool\<lparr>selected_point := s\<rparr>) = s"
  by (simp_all add: init_tool_def)

lemma add_samples:
  "pwl_points (fst (add_point_at (init_tool\<lparr>selected_point := s\<rparr>) (Some 5) (Some 2)))
     = [(0, 0), (1 / 1000000, 0), (1 / 200000, 1 / 500)]"
  "pwl_points (fst (add_point_at (init_tool\<lparr>selected_point := s\<rparr>) (Some (7 / 10000000)) (Some 0)))
     = [(0, 0), (7 / 10000000000000, 0), (1 / 1000000, 0)]"
  by (simp_all add: add_point_at_def init_scales update_plot_frame snap_to_grid_def Let_def
        fut_samples init_fields list_insert_def)

lemma move_samples:
  "pwl_points (fst (move_point (init_tool\<lparr>selected_point := Some 0\<rparr>) (Some 5) (Some 2)))
     = [(1 / 1000000, 0), (1 / 200000, 1 / 500)]"
  "pwl_points (fst (move_point (init_tool\<lparr>selected_point := Some 1\<rparr>) (Some (7 / 10000000)) (Some 0)))
     = [(0, 0), (7 / 10000000000000, 0)]"
proof -
  have a: "pwl_points (fst (move_point (init_tool\<lparr>selected_point := Some sel\<rparr>) (Some x) (Some y)))
      = (case find_unique_time (init_tool\<lparr>selected_point := Some sel\<rparr>) (max 0 (x * (1 / 1000000)))
                (Some sel) of
           Inl e \<Rightarrow> [(0, 0), (1 / 1000000, 0)]
         | Inr u \<Rightarrow> if 2 \<le> sel then [(0, 0), (1 / 1000000, 0)]
                    else sort_key fst ([(0, 0), (1 / 1000000, 0)][sel := (u, y * (1 / 1000))]))"
    for sel x y
    by (simp add: move_point_def init_scales init_fields snap_to_grid_def Let_def
        update_plot_frame split: sum.splits option.splits)
  show "pwl_points (fst (move_point (init_tool\<lparr>selected_point := Some 0\<rparr>) (Some 5) (Some 2)))
     = [(1 / 1000000, 0), (1 / 200000, 1 / 500)]"
    by (simp add: a fut_samples)
  show "pwl_points (fst (move_point (init_tool\<lparr>selected_point := Some 1\<rparr>) (Some (7 / 10000000)) (Some 0)))
     = [(0, 0), (7 / 10000000000000, 0)]"
    by (simp add: a fut_samples)
qed

theorem insert_update_keep_invariant_witness:
  "sorted (map fst (pwl_points (init_tool\<lparr>selected_point := Some 0\<rparr>)))
   \<and> separated (min_offset_of (init_tool\<lparr>selected_point := Some 0\<rparr>) (1 / 1000000) / 2)
       (map fst (pwl_points (init_tool\<lparr>selected_point := Some 0\<rparr>)))
   \<and> pwl_points (fst (add_point_at (init_tool\<lparr>selected_point := Some 0\<rparr>) (Some 5) (Some 2)))
       = [(0, 0), (1 / 1000000, 0), (1 / 200000, 1 / 500)]
   \<and> separated (min_offset_of (init_tool\<lparr>selected_point := Some 0\<rparr>) (1 / 1000000) / 2)
       (map fst (pwl_points
          (fst (add_point_at (init_tool\<lparr>selected_point := Some 0\<rparr>) (Some 5) (Some 2)))))
   \<and> pwl_points (fst (move_point (init_tool\<lparr>selected_point := Some 0\<rparr>) (Some 5) (Some 2)))
       = [(1 / 1000000, 0), (1 / 200000, 1 / 500)]
   \<and> separated (min_offset_of (init_tool\<lparr>selected_point := Some 0\<rparr>) (1 / 1000000) / 2)
       (map fst (pwl_points
          (fst (move_point (init_tool\<lparr>selected_point := Some 0\<rparr>) (Some 5) (Some 2)))))"
proof -
  let ?st = "init_tool\<lparr>selected_point := Some 0\<rparr>"
  have ts: "time_scale_of ?st = Some (1 / 1000000)"
    and vs: "value_scale_of ?st = Some (1 / 1000)"
    by (simp_all add: time_scale_of_def value_scale_of_def scales_init init_tool_def)
  have srt: "sorted (map fst (pwl_points ?st))"
    by (simp add: init_tool_def)
  have sep: "separated (min_offset_of ?st (1 / 1000000) / 2) (map fst (pwl_points ?st))"
    by (simp add: separated_def min_offset_of_def init_tool_def)
  have sel: "selected_point ?st = Some 0 \<and> 0 < length (pwl_points ?st)"
    by (simp add: init_tool_def)
  from insert_update_keep_invariant [OF ts vs srt sep, of "Some 5" "Some 2" 0] sel
  show ?thesis
    using srt sep add_samples(1) [of "Some 0"] move_samples(1) by simp
qed

text \<open>
  The claim as stated fails. The initial store is sorted and its times are more than
  \<open>min_offset = 1e-12\<close> apart; inserting at the display time \<open>7e-7\<close> microseconds, or
  dragging the second point there, stores the time \<open>7e-13\<close> next to the time \<open>0\<close>.
\<close>

theorem insert_within_min_offset_counterexample:
  "sorted (map fst (pwl_points init_tool))
   \<and> separated (min_offset_of init_tool (1 / 10 ^ 6)) (map fst (pwl_points init_tool))
   \<and> pwl_points (fst (add_point_at init_tool (Some (7 / 10 ^ 7)) (Some 0)))
       = [(0, 0), (7 / 10 ^ 13, 0), (1 / 10 ^ 6, 0)]
   \<and> \<not> separated (min_offset_of init_tool (1 / 10 ^ 6))
         (map fst (pwl_points (fst (add_point_at init_tool (Some (7 / 10 ^ 7)) (Some 0)))))
   \<and> pwl_points (fst (move_point (init_tool\<lparr>selected_point := Some 1\<rparr>) (Some (7 / 10 ^ 7))
                        (Some 0)))
       = [(0, 0), (7 / 10 ^ 13, 0)]
   \<and> \<not> separated (min_offset_of init_tool (1 / 10 ^ 6))
         (map fst (pwl_points (fst (move_point (init_tool\<lparr>selected_point := Some 1\<rparr>)
                                      (Some (7 / 10 ^ 7)) (Some 0)))))"
proof -
  have i: "init_tool\<lparr>selected_point := None\<rparr> = init_tool"
    by (simp add: init_tool_def)
  have a: "pwl_points (fst (add_point_at init_tool (Some (7 / 10000000)) (Some 0)))
      = [(0, 0), (7 / 10000000000000, 0), (1 / 1000000, 0)]"
    using add_samples(2) [of None] by (simp only: i)
  have m: "pwl_points (fst (move_point (init_tool\<lparr>selected_point := Some 1\<rparr>)
        (Some (7 / 10000000)) (Some 0))) = [(0, 0), (7 / 10000000000000, 0)]"
    by (rule move_samples)
  have p: "pwl_points init_tool = [(0, 0), (1 / 1000000, 0)]"
    by (simp add: init_tool_def)
  have s0: "separated (1 / 1000000000000) [0, 1 / 1000000]"
    and s1: "\<not> separated (1 / 1000000000000) [0, 7 / 10000000000000, 1 / 1000000]"
    and s2: "\<not> separated (1 / 1000000000000) [0, 7 / 10000000000000]"
    unfolding separated_def sorted_wrt.simps list.set ball_simps by simp_all
  show ?thesis
    using a m by (simp add: p init_scales s0 s1 s2)
qed

subsection \<open>Powers of ten and the decimal exponent\<close>

lemma pow10_powi: "pow10 k = 10 powi k"
  by (simp add: pow10_def power_int_def inverse_eq_divide power_inverse [symmetric] field_simps)

lemma pow10_pos [simp]: "0 < pow10 k"
  by (simp add: pow10_powi)

lemma pow10_add: "pow10 (i + j) = pow10 i * pow10 j"
  by (simp add: pow10_powi power_int_add)

lemma pow10_nat: "pow10 (int n) = 10 ^ n"
  by (simp add: pow10_def)

lemma pow10_mono: "i \<le> j \<Longrightarrow> pow10 i \<le> pow10 j"
  by (simp add: pow10_powi power_int_increasing)

lemma pow10_strict_mono: "i < j \<Longrightarrow> pow10 i < pow10 j"
  by (simp add: pow10_powi power_int_strict_increasing)

lemma pow10_minus: "pow10 (- k) = 1 / pow10 k"
  by (simp add: pow10_powi power_int_minus inverse_eq_divide)

lemma pow10_neg_nat: "pow10 (- int n) = 1 / 10 ^ n"
  by (simp add: pow10_minus pow10_nat)

lemma real_pow10_le:
  fixes n :: nat
  assumes "10 ^ k \<le> n"
  shows "(10::real) ^ k \<le> real n"
proof -
  from assms have "real (10 ^ k) \<le> real n" by (rule of_nat_mono)
  then show ?thesis by simp
qed

lemma real_less_pow10:
  fixes n :: nat
  assumes "n < 10 ^ k"
  shows "real n + 1 \<le> (10::real) ^ k"
proof -
  from assms have "n + 1 \<le> 10 ^ k" by simp
  then have "real (n + 1) \<le> real (10 ^ k)" by (rule of_nat_mono)
  then show ?thesis by simp
qed

lemma dec_exponent_bounds:
  assumes "0 < a"
  shows "pow10 (dec_exponent a) \<le> a \<and> a < pow10 (dec_exponent a + 1)"
proof (cases "1 \<le> a")
  case True
  define n where "n = nat \<lfloor>a\<rfloor>"
  from True have n1: "0 < n" by (simp add: n_def)
  have na: "real n \<le> a" "a < real n + 1"
    using True unfolding n_def by linarith+
  from floorlog_bounds [OF n1, of 10] have
    fb: "10 ^ (floorlog 10 n - 1) \<le> n" "n < 10 ^ floorlog 10 n"
    by simp_all
  from n1 have fl: "0 < floorlog 10 n" by (simp add: floorlog_def)
  have e: "dec_exponent a = int (floorlog 10 n - 1)"
    using True fl by (simp add: dec_exponent_def n_def of_nat_diff)
  have "(10::real) ^ (floorlog 10 n - 1) \<le> real n" using fb(1) by (rule real_pow10_le)
  with na(1) have "(10::real) ^ (floorlog 10 n - 1) \<le> a" by linarith
  then have lo: "pow10 (dec_exponent a) \<le> a"
    by (simp only: e pow10_nat)
  have "real n + 1 \<le> (10::real) ^ floorlog 10 n" using fb(2) by (rule real_less_pow10)
  with na(2) have "a < (10::real) ^ floorlog 10 n" by linarith
  moreover have "dec_exponent a + 1 = int (floorlog 10 n)"
    using fl by (simp add: e)
  ultimately have hi: "a < pow10 (dec_exponent a + 1)"
    by (simp only: pow10_nat)
  from lo hi show ?thesis ..
next
  case False
  define b where "b = 1 / a"
  define n where "n = nat \<lfloor>b\<rfloor>"
  define d where "d = floorlog 10 n"
  from False assms have b1: "1 < b" by (simp add: b_def)
  then have n1: "0 < n" by (simp add: n_def)
  have nb: "real n \<le> b" "b < real n + 1"
    using b1 unfolding n_def by linarith+
  from floorlog_bounds [OF n1, of 10] have
    fb: "10 ^ (d - 1) \<le> n" "n < 10 ^ d"
    by (simp_all add: d_def)
  from n1 have d1: "0 < d" by (simp add: d_def floorlog_def)
  have "(10::real) ^ (d - 1) \<le> real n" using fb(1) by (rule real_pow10_le)
  with nb(1) have lo: "10 ^ (d - 1) \<le> b" by linarith
  have "real n + 1 \<le> (10::real) ^ d" using fb(2) by (rule real_less_pow10)
  with nb(2) have hi: "b < 10 ^ d" by linarith
  have a_hi: "a \<le> 1 / 10 ^ (d - 1)"
    using lo assms by (simp add: b_def field_simps)
  have a_lo: "1 / 10 ^ d < a"
    using hi assms by (simp add: b_def field_simps)
  have dd: "int d - 1 = int (d - 1)" using d1 by simp
  have ee: "dec_exponent a = (if 1 \<le> a * pow10 (int d - 1) then 1 - int d else - int d)"
    using False by (simp add: dec_exponent_def Let_def b_def n_def d_def)
  have p1: "pow10 (int d - 1) = 10 ^ (d - 1)"
    by (simp only: dd pow10_nat)
  have p2: "pow10 (1 - int d) = 1 / 10 ^ (d - 1)"
  proof -
    have "1 - int d = - int (d - 1)" using d1 by simp
    then show ?thesis by (simp only: pow10_neg_nat)
  qed
  show ?thesis
  proof (cases "1 \<le> a * pow10 (int d - 1)")
    case True
    then have e: "dec_exponent a = 1 - int d" by (simp only: ee if_True)
    from True have "1 \<le> a * 10 ^ (d - 1)" by (simp only: p1)
    then have "1 / 10 ^ (d - 1) \<le> a" by (simp add: field_simps)
    then have 1: "pow10 (dec_exponent a) \<le> a" by (simp only: e p2)
    have "a \<le> pow10 (dec_exponent a)"
      using a_hi by (simp only: e p2)
    also have "\<dots> < pow10 (dec_exponent a + 1)"
      by (rule pow10_strict_mono) simp
    finally have 2: "a < pow10 (dec_exponent a + 1)" .
    from 1 2 show ?thesis ..
  next
    case F2: False
    then have e: "dec_exponent a = - int d" by (simp only: ee if_False)
    have 1: "pow10 (dec_exponent a) \<le> a"
      using a_lo by (simp add: e pow10_neg_nat)
    from F2 have "a * 10 ^ (d - 1) < 1" by (simp only: p1 not_le)
    then have "a < 1 / 10 ^ (d - 1)" by (simp add: field_simps)
    moreover have "dec_exponent a + 1 = 1 - int d" by (simp add: e)
    ultimately have 2: "a < pow10 (dec_exponent a + 1)" by (simp only: p2)
    from 1 2 show ?thesis ..
  qed
qed

subsection \<open>Rounding to six significant digits\<close>

lemma py_round_cases: "py_round x = \<lfloor>x\<rfloor> \<or> py_round x = \<lfloor>x\<rfloor> + 1"
  by (simp add: py_round_def Let_def)

lemma py_round_near:
  "real_of_int (py_round x) \<le> x + 1 / 2" "x - 1 / 2 \<le> real_of_int (py_round x)"
  unfolding py_round_def Let_def by (auto; linarith)+

lemma py_round_of_int [simp]: "py_round (of_int n) = n"
  by (simp add: py_round_def)

lemma py_round_mono:
  assumes "x \<le> y"
  shows "py_round x \<le> py_round y"
proof (cases "\<lfloor>x\<rfloor> = \<lfloor>y\<rfloor>")
  case True
  with assms have "x - of_int \<lfloor>x\<rfloor> \<le> y - of_int \<lfloor>y\<rfloor>" by simp
  with True show ?thesis
    by (auto simp: py_round_def Let_def)
next
  case False
  moreover from assms have "\<lfloor>x\<rfloor> \<le> \<lfloor>y\<rfloor>" by (rule floor_mono)
  ultimately have "\<lfloor>x\<rfloor> < \<lfloor>y\<rfloor>" by simp
  moreover have "py_round x \<le> \<lfloor>x\<rfloor> + 1" using py_round_cases [of x] by auto
  moreover have "\<lfloor>y\<rfloor> \<le> py_round y" using py_round_cases [of y] by auto
  ultimately show ?thesis by linarith
qed

lemma py_round_ge: "of_int n \<le> x \<Longrightarrow> n \<le> py_round x"
  using py_round_mono [of "of_int n" x] by simp

lemma py_round_le: "x \<le> of_int n \<Longrightarrow> py_round x \<le> n"
  using py_round_mono [of x "of_int n"] by simp

text \<open>The scaled number lies between 10^5 and 10^6.\<close>

lemma scaled_bounds:
  assumes "0 < a"
  shows "100000 \<le> a * pow10 (5 - dec_exponent a)" "a * pow10 (5 - dec_exponent a) < 1000000"
proof -
  let ?e = "dec_exponent a"
  from dec_exponent_bounds [OF assms] have lo: "pow10 ?e \<le> a" and hi: "a < pow10 (?e + 1)"
    by simp_all
  have "pow10 ?e * pow10 (5 - ?e) \<le> a * pow10 (5 - ?e)"
    using lo by (simp add: mult_right_mono less_imp_le)
  moreover have "pow10 ?e * pow10 (5 - ?e) = pow10 5"
    by (simp add: pow10_add [symmetric])
  moreover have "pow10 5 = 100000" by (simp add: pow10_def)
  ultimately show "100000 \<le> a * pow10 (5 - ?e)" by simp
  have "a * pow10 (5 - ?e) < pow10 (?e + 1) * pow10 (5 - ?e)"
    using hi by (simp add: mult_strict_right_mono)
  moreover have "pow10 (?e + 1) * pow10 (5 - ?e) = pow10 6"
    by (simp add: pow10_add [symmetric])
  moreover have "pow10 6 = 1000000" by (simp add: pow10_def)
  ultimately show "a * pow10 (5 - ?e) < 1000000" by simp
qed

lemma round_scaled_bounds:
  assumes "0 < a"
  shows "100000 \<le> py_round (a * pow10 (5 - dec_exponent a))"
    and "py_round (a * pow10 (5 - dec_exponent a)) \<le> 1000000"
proof -
  from scaled_bounds [OF assms] have
    "real_of_int 100000 \<le> a * pow10 (5 - dec_exponent a)"
    "a * pow10 (5 - dec_exponent a) \<le> real_of_int 1000000"
    by simp_all
  then show "100000 \<le> py_round (a * pow10 (5 - dec_exponent a))"
    and "py_round (a * pow10 (5 - dec_exponent a)) \<le> 1000000"
    by (auto intro: py_round_ge py_round_le)
qed

lemma sig6_props:
  assumes "0 < a" and "sig6 a = (m, e)"
  shows "100000 \<le> m" and "m < 1000000"
    and "real m * pow10 (e - 5)
           = real_of_int (py_round (a * pow10 (5 - dec_exponent a))) * pow10 (dec_exponent a - 5)"
proof -
  let ?e = "dec_exponent a"
  let ?r = "py_round (a * pow10 (5 - ?e))"
  note rb = round_scaled_bounds [OF assms(1)]
  have nr: "int (nat ?r) = ?r" using rb(1) by simp
  show "100000 \<le> m" "m < 1000000"
    using assms(2) rb by (auto simp: sig6_def Let_def split: if_splits)
  show "real m * pow10 (e - 5) = real_of_int ?r * pow10 (?e - 5)"
  proof (cases "nat ?r = 1000000")
    case True
    with assms(2) have me: "m = 100000" "e = ?e + 1" by (auto simp: sig6_def Let_def)
    from True nr have r: "?r = 1000000" by linarith
    have "pow10 (?e + 1 - 5) = pow10 1 * pow10 (?e - 5)"
      by (simp add: pow10_add [symmetric])
    also have "pow10 1 = 10" by (simp add: pow10_def)
    finally show ?thesis by (simp add: me r)
  next
    case False
    with assms(2) have me: "m = nat ?r" "e = ?e" by (auto simp: sig6_def Let_def)
    have "real (nat ?r) = real_of_int ?r" using rb(1) by simp
    then show ?thesis by (simp add: me)
  qed
qed

lemma round6_alt:
  assumes "x \<noteq> 0"
  shows "round6 x = sgn x * (real_of_int (py_round (\<bar>x\<bar> * pow10 (5 - dec_exponent \<bar>x\<bar>)))
                              * pow10 (dec_exponent \<bar>x\<bar> - 5))"
proof -
  obtain m e where me: "sig6 \<bar>x\<bar> = (m, e)" by (cases "sig6 \<bar>x\<bar>")
  from assms have "0 < \<bar>x\<bar>" by simp
  from sig6_props(3) [OF this me] show ?thesis
    using assms by (simp add: round6_def me mult.assoc)
qed

lemma round6_zero [simp]: "round6 0 = 0"
  by (simp add: round6_def)

lemma round6_pos_bounds:
  assumes "0 < a"
  shows "pow10 (dec_exponent a) \<le> round6 a" "round6 a \<le> pow10 (dec_exponent a + 1)"
proof -
  let ?e = "dec_exponent a"
  let ?r = "py_round (a * pow10 (5 - ?e))"
  note rb = round_scaled_bounds [OF assms]
  have r6: "round6 a = real_of_int ?r * pow10 (?e - 5)"
    using assms round6_alt [of a] by simp
  have "pow10 5 * pow10 (?e - 5) \<le> real_of_int ?r * pow10 (?e - 5)"
    using rb(1) by (intro mult_right_mono) (simp_all add: pow10_def less_imp_le)
  moreover have "pow10 5 * pow10 (?e - 5) = pow10 ?e" by (simp add: pow10_add [symmetric])
  ultimately show "pow10 ?e \<le> round6 a" by (simp add: r6)
  have "real_of_int ?r * pow10 (?e - 5) \<le> pow10 6 * pow10 (?e - 5)"
    using rb(2) by (intro mult_right_mono) (simp_all add: pow10_def less_imp_le)
  moreover have "pow10 6 * pow10 (?e - 5) = pow10 (?e + 1)"
    by (simp add: pow10_add [symmetric] add.commute)
  ultimately show "round6 a \<le> pow10 (?e + 1)" by (simp add: r6)
qed

lemma dec_exponent_mono:
  assumes "0 < a" and "a \<le> b"
  shows "dec_exponent a \<le> dec_exponent b"
proof (rule ccontr)
  assume "\<not> dec_exponent a \<le> dec_exponent b"
  then have "dec_exponent b + 1 \<le> dec_exponent a" by simp
  then have "pow10 (dec_exponent b + 1) \<le> pow10 (dec_exponent a)" by (rule pow10_mono)
  moreover from assms have "0 < b" by simp
  from dec_exponent_bounds [OF this] have "b < pow10 (dec_exponent b + 1)" by simp
  moreover from dec_exponent_bounds [OF assms(1)] have "pow10 (dec_exponent a) \<le> a" by simp
  ultimately show False using assms(2) by linarith
qed

lemma round6_mono_pos:
  assumes "0 < a" and "a \<le> b"
  shows "round6 a \<le> round6 b"
proof -
  from assms have b: "0 < b" by simp
  let ?ea = "dec_exponent a" and ?eb = "dec_exponent b"
  from dec_exponent_mono [OF assms] consider "?ea = ?eb" | "?ea + 1 \<le> ?eb" by linarith
  then show ?thesis
  proof cases
    case 1
    have "a * pow10 (5 - ?ea) \<le> b * pow10 (5 - ?ea)"
      using assms(2) by (simp add: mult_right_mono less_imp_le)
    then have "py_round (a * pow10 (5 - ?ea)) \<le> py_round (b * pow10 (5 - ?ea))"
      by (rule py_round_mono)
    then have "real_of_int (py_round (a * pow10 (5 - ?ea))) * pow10 (?ea - 5)
        \<le> real_of_int (py_round (b * pow10 (5 - ?ea))) * pow10 (?ea - 5)"
      by (intro mult_right_mono) (simp_all add: less_imp_le)
    then show ?thesis
      using assms(1) b round6_alt [of a] round6_alt [of b] by (simp add: 1)
  next
    case 2
    have "round6 a \<le> pow10 (?ea + 1)" using assms(1) by (rule round6_pos_bounds)
    also have "\<dots> \<le> pow10 ?eb" using 2 by (rule pow10_mono)
    also have "\<dots> \<le> round6 b" using b by (rule round6_pos_bounds)
    finally show ?thesis .
  qed
qed

lemma round6_nonneg: "0 \<le> x \<Longrightarrow> 0 \<le> round6 x"
proof (cases "x = 0")
  case True
  then show ?thesis by simp
next
  case False
  assume "0 \<le> x"
  with False have "0 < x" by simp
  from round6_pos_bounds(1) [OF this] show ?thesis
    using pow10_pos [of "dec_exponent x"] by linarith
qed

lemma round6_mono_nonneg:
  assumes "0 \<le> a" and "a \<le> b"
  shows "round6 a \<le> round6 b"
proof (cases "a = 0")
  case True
  with assms show ?thesis by (simp add: round6_nonneg)
next
  case False
  with assms have "0 < a" by simp
  then show ?thesis using assms(2) by (rule round6_mono_pos)
qed

lemma round6_error: "\<bar>round6 x - x\<bar> \<le> \<bar>x\<bar> / 200000"
proof (cases "x = 0")
  case True
  then show ?thesis by simp
next
  case False
  define a where "a = \<bar>x\<bar>"
  from False have a: "0 < a" by (simp add: a_def)
  let ?e = "dec_exponent a"
  let ?y = "a * pow10 (5 - ?e)"
  have pp: "pow10 (5 - ?e) * pow10 (?e - 5) = 1"
    by (simp add: pow10_add [symmetric] pow10_def)
  have "\<bar>real_of_int (py_round ?y) - ?y\<bar> \<le> 1 / 2"
    using py_round_near [of ?y] by linarith
  then have "\<bar>real_of_int (py_round ?y) - ?y\<bar> * pow10 (?e - 5) \<le> 1 / 2 * pow10 (?e - 5)"
    by (intro mult_right_mono) (simp_all add: less_imp_le)
  moreover have "\<bar>real_of_int (py_round ?y) - ?y\<bar> * pow10 (?e - 5)
      = \<bar>real_of_int (py_round ?y) * pow10 (?e - 5) - a\<bar>"
  proof -
    have "real_of_int (py_round ?y) * pow10 (?e - 5) - a
        = (real_of_int (py_round ?y) - ?y) * pow10 (?e - 5)"
      using pp by (simp add: algebra_simps)
    then have "\<bar>real_of_int (py_round ?y) * pow10 (?e - 5) - a\<bar>
        = \<bar>real_of_int (py_round ?y) - ?y\<bar> * \<bar>pow10 (?e - 5)\<bar>"
      by (simp only: abs_mult)
    then show ?thesis by (simp add: less_imp_le)
  qed
  moreover have "1 / 2 * pow10 (?e - 5) \<le> a / 200000"
  proof -
    have "pow10 (?e - 5) = pow10 ?e * pow10 (- 5)" by (simp add: pow10_add [symmetric])
    also have "pow10 (- 5) = 1 / 100000" by (simp add: pow10_def)
    finally have "pow10 (?e - 5) = pow10 ?e / 100000" by simp
    moreover from dec_exponent_bounds [OF a] have "pow10 ?e \<le> a" by simp
    ultimately show ?thesis by simp
  qed
  ultimately have main: "\<bar>real_of_int (py_round ?y) * pow10 (?e - 5) - a\<bar> \<le> a / 200000"
    by linarith
  have sx: "sgn x * a = x" by (simp add: a_def sgn_mult_abs)
  have "round6 x = sgn x * (real_of_int (py_round ?y) * pow10 (?e - 5))"
    using False round6_alt [of x] by (simp add: a_def)
  then have "round6 x - x = sgn x * (real_of_int (py_round ?y) * pow10 (?e - 5)) - sgn x * a"
    by (simp only: sx)
  then have "round6 x - x = sgn x * (real_of_int (py_round ?y) * pow10 (?e - 5) - a)"
    by (simp only: right_diff_distrib)
  then have "\<bar>round6 x - x\<bar> = \<bar>real_of_int (py_round ?y) * pow10 (?e - 5) - a\<bar>"
    using False by (simp add: abs_mult abs_sgn_eq)
  with main show ?thesis by (simp add: a_def)
qed

subsection \<open>Digit strings\<close>

lemma digit_char_code: "of_char (digit_char d) = (48 + d mod 10 :: nat)"
proof -
  have "d mod 10 < 10" by simp
  then have "d mod 10 = 0 \<or> d mod 10 = 1 \<or> d mod 10 = 2 \<or> d mod 10 = 3 \<or> d mod 10 = 4
      \<or> d mod 10 = 5 \<or> d mod 10 = 6 \<or> d mod 10 = 7 \<or> d mod 10 = 8 \<or> d mod 10 = 9"
    by presburger
  then show ?thesis
    by (auto simp: digit_char_def)
qed

lemma digit_char_digit [simp]: "is_digit (digit_char d)"
  by (simp add: is_digit_def digit_char_code)

lemma digit_val_digit_char [simp]: "digit_val (digit_char d) = d mod 10"
  by (simp add: digit_val_def digit_char_code)

lemma is_digit_zero [simp]: "is_digit (CHR ''0'')" "digit_val (CHR ''0'') = 0"
  by (simp_all add: is_digit_def digit_val_def)

lemma is_digit_not_special:
  assumes "is_digit c"
  shows "\<not> py_isspace c" "c \<noteq> CHR ''.''" "\<not> is_exp_mark c" "c \<noteq> CHR ''-''" "c \<noteq> CHR ''+''"
    "c \<noteq> CHR ''_''"
  using assms by (auto simp: is_digit_def py_isspace_def is_exp_mark_def Let_def)

lemma length_dec_digits [simp]: "length (dec_digits k n) = k"
  by (induction k arbitrary: n) simp_all

lemma dec_digits_all_digits [simp]: "list_all is_digit (dec_digits k n)"
  by (induction k arbitrary: n) simp_all

lemma filter_digits [simp]: "list_all is_digit s \<Longrightarrow> filter is_digit s = s"
  by (induction s) simp_all

lemma num_digits_all [simp]: "list_all is_digit s \<Longrightarrow> num_digits s = length s"
  by (simp add: num_digits_def)

lemma digits_value_Nil [simp]: "digits_value [] = 0"
  by (simp add: digits_value_def)

lemma digits_value_snoc:
  "is_digit c \<Longrightarrow> digits_value (xs @ [c]) = 10 * digits_value xs + digit_val c"
  by (simp add: digits_value_def)

lemma digits_value_append:
  "list_all is_digit ys \<Longrightarrow>
     digits_value (xs @ ys) = digits_value xs * 10 ^ length ys + digits_value ys"
proof (induction ys rule: rev_induct)
  case Nil
  then show ?case by simp
next
  case (snoc c ys)
  then have c: "is_digit c" and ys: "list_all is_digit ys" by simp_all
  have "digits_value (xs @ ys @ [c]) = 10 * digits_value (xs @ ys) + digit_val c"
    using digits_value_snoc [OF c, of "xs @ ys"] by simp
  also have "\<dots> = 10 * (digits_value xs * 10 ^ length ys + digits_value ys) + digit_val c"
    using snoc.IH [OF ys] by simp
  also have "\<dots> = digits_value xs * 10 ^ length (ys @ [c]) + digits_value (ys @ [c])"
    using digits_value_snoc [OF c, of ys] by (simp add: algebra_simps)
  finally show ?case .
qed

lemma digits_value_dec_digits: "digits_value (dec_digits k n) = n mod 10 ^ k"
proof (induction k arbitrary: n)
  case 0
  then show ?case by simp
next
  case (Suc k)
  have "digits_value (dec_digits (Suc k) n) = 10 * ((n div 10) mod 10 ^ k) + n mod 10"
    by (simp add: digits_value_snoc Suc.IH)
  also have "\<dots> = n mod 10 ^ Suc k"
    by (simp add: mod_mult2_eq)
  finally show ?case .
qed

lemma digits_value_replicate_zero [simp]: "digits_value (replicate j (CHR ''0'')) = 0"
proof (induction j)
  case 0
  then show ?case by simp
next
  case (Suc j)
  have "replicate (Suc j) (CHR ''0'') = replicate j (CHR ''0'') @ [CHR ''0'']"
    by (simp add: replicate_append_same)
  then show ?case using Suc by (simp only: digits_value_snoc is_digit_zero)
qed

lemma valid_digitpart_all:
  "s \<noteq> [] \<Longrightarrow> list_all is_digit s \<Longrightarrow> valid_digitpart s"
proof (induction s rule: valid_digitpart.induct)
  case 1
  then show ?case by simp
next
  case (2 c)
  then show ?case by simp
next
  case (3 c d cs)
  then have "d \<noteq> CHR ''_''" by (auto dest: is_digit_not_special)
  with 3 show ?case by simp
qed

lemma strip_zeros_decomp:
  "\<exists>j. s = strip_zeros s @ replicate j (CHR ''0'')"
proof -
  let ?P = "\<lambda>c. c = CHR ''0''"
  have "takeWhile ?P (rev s) = replicate (length (takeWhile ?P (rev s))) (CHR ''0'')"
    by (rule replicate_eqI) (auto dest: set_takeWhileD)
  moreover have "rev s = takeWhile ?P (rev s) @ dropWhile ?P (rev s)" by simp
  then have "s = rev (dropWhile ?P (rev s)) @ rev (takeWhile ?P (rev s))"
    by (metis rev_append rev_rev_ident)
  ultimately have
    "s = strip_zeros s @ rev (replicate (length (takeWhile ?P (rev s))) (CHR ''0''))"
    by (simp add: strip_zeros_def)
  then show ?thesis by (metis rev_replicate)
qed

lemma strip_zeros_digits:
  assumes "list_all is_digit s"
  shows "list_all is_digit (strip_zeros s)"
proof -
  have "set (strip_zeros s) \<subseteq> set s"
    by (auto simp: strip_zeros_def dest: set_dropWhileD)
  with assms show ?thesis by (auto simp: list_all_iff)
qed

lemma frac_strip:
  assumes "list_all is_digit s"
  shows "real (digits_value (strip_zeros s)) / 10 ^ length (strip_zeros s)
           = real (digits_value s) / 10 ^ length s"
proof -
  from strip_zeros_decomp [of s] obtain j where j: "s = strip_zeros s @ replicate j (CHR ''0'')"
    by blast
  let ?t = "strip_zeros s"
  have "digits_value s = digits_value ?t * 10 ^ j"
    using digits_value_append [of "replicate j (CHR ''0'')" ?t] j
    by (simp add: list_all_iff)
  moreover have "length s = length ?t + j"
    using j by (metis length_append length_replicate)
  ultimately show ?thesis by (simp add: power_add)
qed

subsection \<open>Reading a decimal literal\<close>

lemma py_strip_nospace:
  assumes "list_all (\<lambda>c. \<not> py_isspace c) s"
  shows "py_strip s = s"
proof -
  from assms have "dropWhile py_isspace s = s"
    by (cases s) simp_all
  moreover from assms have "list_all (\<lambda>c. \<not> py_isspace c) (rev s)"
    by (simp add: list_all_iff)
  then have "dropWhile py_isspace (rev s) = rev s"
    by (cases "rev s") simp_all
  ultimately show ?thesis by (simp add: py_strip_def)
qed

lemma takeWhile_all:
  assumes "list_all P xs"
  shows "takeWhile P (xs @ ys) = xs @ takeWhile P ys" "dropWhile P (xs @ ys) = dropWhile P ys"
  using assms by (simp_all add: list_all_iff)

lemma parse_mantissa_dec_point:
  assumes "ip \<noteq> []" and "list_all is_digit ip" and "list_all is_digit fp"
  shows "parse_mantissa (dec_point ip fp)
           = Some (real (digits_value ip) + real (digits_value fp) / 10 ^ length fp)"
proof -
  have nd: "list_all (\<lambda>c. c \<noteq> CHR ''.'') ip"
    using assms(2) by (auto simp: list_all_iff dest: is_digit_not_special)
  show ?thesis
  proof (cases "fp = []")
    case True
    have tw: "takeWhile (\<lambda>c. c \<noteq> CHR ''.'') ip = ip" "dropWhile (\<lambda>c. c \<noteq> CHR ''.'') ip = []"
      using takeWhile_all [OF nd, of "[]"] by simp_all
    show ?thesis
      using True assms
      by (simp add: parse_mantissa_def dec_point_def valid_digitpart_all tw Let_def)
  next
    case False
    have tw: "takeWhile (\<lambda>c. c \<noteq> CHR ''.'') (ip @ CHR ''.'' # fp) = ip"
      "dropWhile (\<lambda>c. c \<noteq> CHR ''.'') (ip @ CHR ''.'' # fp) = CHR ''.'' # fp"
      using takeWhile_all [OF nd, of "CHR ''.'' # fp"] by simp_all
    show ?thesis
      using False assms
      by (simp add: parse_mantissa_def dec_point_def valid_digitpart_all Let_def tw)
  qed
qed

lemma parse_exponent_signed:
  assumes "ex \<noteq> []" and "list_all is_digit ex"
  shows "parse_exponent (CHR ''-'' # ex) = Some (- int (digits_value ex))"
    and "parse_exponent (CHR ''+'' # ex) = Some (int (digits_value ex))"
  using assms by (simp_all add: parse_exponent_def valid_digitpart_all)

lemma dec_point_chars:
  assumes "list_all is_digit ip" and "list_all is_digit fp"
  shows "list_all (\<lambda>c. is_digit c \<or> c = CHR ''.'') (dec_point ip fp)"
  using assms by (auto simp: dec_point_def list_all_iff)

lemma dec_point_hd:
  assumes "ip \<noteq> []"
  shows "dec_point ip fp \<noteq> []" "hd (dec_point ip fp) = hd ip"
  using assms by (simp_all add: dec_point_def)

lemma float_unsigned_parts:
  assumes mant: "takeWhile (\<lambda>c. \<not> is_exp_mark c) (M @ tail) = M"
    and rest: "dropWhile (\<lambda>c. \<not> is_exp_mark c) (M @ tail) = tail"
    and pm: "parse_mantissa M = Some v"
    and ex: "(if tail = [] then Some 0 else parse_exponent (drop 1 tail)) = Some k"
  shows "float_unsigned (M @ tail) = Some (v * pow10 k)"
  unfolding float_unsigned_def Let_def
  by (simp only: mant rest pm ex option.case)

lemma py_float_signed:
  assumes strip: "py_strip ((if neg then ''-'' else []) @ u) = (if neg then ''-'' else []) @ u"
    and u: "u \<noteq> []" "hd u \<noteq> CHR ''-''" "hd u \<noteq> CHR ''+''"
    and fu: "float_unsigned u = Some w"
  shows "py_float ((if neg then ''-'' else []) @ u) = Some ((if neg then - 1 else 1) * w)"
proof (cases neg)
  case True
  then show ?thesis
    using strip fu unfolding py_float_def Let_def by simp
next
  case False
  then show ?thesis
    using strip fu u unfolding py_float_def Let_def by simp
qed

lemma mant_char:
  assumes "is_digit c \<or> c = CHR ''.''"
  shows "\<not> is_exp_mark c" "\<not> py_isspace c"
proof -
  from assms show "\<not> is_exp_mark c"
  proof
    assume "is_digit c" then show ?thesis by (rule is_digit_not_special)
  next
    assume "c = CHR ''.''" then show ?thesis by (simp add: is_exp_mark_def)
  qed
  from assms show "\<not> py_isspace c"
  proof
    assume "is_digit c" then show ?thesis by (rule is_digit_not_special)
  next
    assume "c = CHR ''.''" then show ?thesis by (simp add: py_isspace_def)
  qed
qed

lemma py_float_body:
  assumes ip: "ip \<noteq> []" "list_all is_digit ip" and fp: "list_all is_digit fp"
    and tail: "tail = [] \<and> k = 0
       \<or> (\<exists>ex. ex \<noteq> [] \<and> list_all is_digit ex
              \<and> (tail = CHR ''e'' # CHR ''-'' # ex \<and> k = - int (digits_value ex)
                  \<or> tail = CHR ''e'' # CHR ''+'' # ex \<and> k = int (digits_value ex)))"
  shows "py_float ((if neg then ''-'' else []) @ dec_point ip fp @ tail)
     = Some ((if neg then - 1 else 1)
             * ((real (digits_value ip) + real (digits_value fp) / 10 ^ length fp) * pow10 k))"
proof -
  let ?M = "dec_point ip fp"
  have Mc: "list_all (\<lambda>c. is_digit c \<or> c = CHR ''.'') ?M"
    using ip(2) fp by (rule dec_point_chars)
  have Mne: "list_all (\<lambda>c. \<not> is_exp_mark c) ?M"
    using Mc unfolding list_all_iff by (metis mant_char)
  have Msp: "list_all (\<lambda>c. \<not> py_isspace c) ?M"
    using Mc unfolding list_all_iff by (metis mant_char)
  have tail_cases: "tail = [] \<or> (\<exists>ex sg. list_all is_digit ex \<and> tail = CHR ''e'' # sg # ex
      \<and> (sg = CHR ''-'' \<or> sg = CHR ''+''))"
    using tail by blast
  have tsp: "list_all (\<lambda>c. \<not> py_isspace c) tail"
  proof -
    from tail_cases consider "tail = []"
      | ex sg where "list_all is_digit ex" "tail = CHR ''e'' # sg # ex"
          "sg = CHR ''-'' \<or> sg = CHR ''+''"
      by blast
    then show ?thesis
    proof cases
      case 1
      then show ?thesis by simp
    next
      case 2
      have "list_all (\<lambda>c. \<not> py_isspace c) ex"
        using 2(1) unfolding list_all_iff by (metis is_digit_not_special(1))
      moreover have "\<not> py_isspace (CHR ''e'')" "\<not> py_isspace sg"
        using 2(3) by (auto simp: py_isspace_def)
      ultimately show ?thesis by (simp add: 2(2))
    qed
  qed
  have hdM: "hd ?M = hd ip" "?M \<noteq> []" using ip(1) by (simp_all add: dec_point_hd)
  have "hd ip \<in> set ip" using ip(1) by simp
  with ip(2) have dig: "is_digit (hd ip)" by (simp add: list_all_iff)
  then have hne: "hd ?M \<noteq> CHR ''-''" "hd ?M \<noteq> CHR ''+''"
    unfolding hdM by (rule is_digit_not_special)+
  have tw: "takeWhile (\<lambda>c. \<not> is_exp_mark c) tail = []"
    "dropWhile (\<lambda>c. \<not> is_exp_mark c) tail = tail"
    using tail_cases by (auto simp: is_exp_mark_def)
  have mant: "takeWhile (\<lambda>c. \<not> is_exp_mark c) (?M @ tail) = ?M"
    and rest: "dropWhile (\<lambda>c. \<not> is_exp_mark c) (?M @ tail) = tail"
    using takeWhile_all [OF Mne, of tail] by (simp_all only: tw append_Nil2)
  have ex: "(if tail = [] then Some 0 else parse_exponent (drop 1 tail)) = Some k"
  proof -
    from tail consider "tail = []" "k = 0"
      | ex where "ex \<noteq> []" "list_all is_digit ex" "tail = CHR ''e'' # CHR ''-'' # ex"
          "k = - int (digits_value ex)"
      | ex where "ex \<noteq> []" "list_all is_digit ex" "tail = CHR ''e'' # CHR ''+'' # ex"
          "k = int (digits_value ex)"
      by blast
    then show ?thesis
    proof cases
      case 1
      then show ?thesis by simp
    next
      case 2
      then show ?thesis using parse_exponent_signed(1) [OF 2(1,2)] by simp
    next
      case 3
      then show ?thesis using parse_exponent_signed(2) [OF 3(1,2)] by simp
    qed
  qed
  have pm: "parse_mantissa ?M
      = Some (real (digits_value ip) + real (digits_value fp) / 10 ^ length fp)"
    using ip fp by (rule parse_mantissa_dec_point)
  have fu: "float_unsigned (?M @ tail)
      = Some ((real (digits_value ip) + real (digits_value fp) / 10 ^ length fp) * pow10 k)"
    using mant rest pm ex by (rule float_unsigned_parts)
  have sp: "list_all (\<lambda>c. \<not> py_isspace c) ((if neg then ''-'' else []) @ ?M @ tail)"
    using Msp tsp by (simp add: py_isspace_def)
  have strip: "py_strip ((if neg then ''-'' else []) @ ?M @ tail)
      = (if neg then ''-'' else []) @ ?M @ tail"
    using sp by (rule py_strip_nospace)
  have u: "?M @ tail \<noteq> []" "hd (?M @ tail) \<noteq> CHR ''-''" "hd (?M @ tail) \<noteq> CHR ''+''"
    using hdM(2) hne by simp_all
  from py_float_signed [OF strip u fu] show ?thesis .
qed

subsection \<open>The value of a formatted number\<close>

lemma list_all_take_drop:
  assumes "list_all P xs"
  shows "list_all P (take n xs)" "list_all P (drop n xs)"
  using assms by (auto simp: list_all_iff dest: in_set_takeD in_set_dropD)

lemma split_value:
  assumes "list_all is_digit ds"
  shows "real (digits_value (take n ds))
         + real (digits_value (strip_zeros (drop n ds))) / 10 ^ length (strip_zeros (drop n ds))
       = real (digits_value ds) / 10 ^ (length ds - n)"
proof -
  have d: "list_all is_digit (drop n ds)" using assms by (rule list_all_take_drop)
  have "digits_value (take n ds @ drop n ds)
      = digits_value (take n ds) * 10 ^ length (drop n ds) + digits_value (drop n ds)"
    using d by (rule digits_value_append)
  then have "real (digits_value ds)
      = real (digits_value (take n ds)) * 10 ^ (length ds - n) + real (digits_value (drop n ds))"
    by simp
  moreover have "real (digits_value (strip_zeros (drop n ds))) / 10 ^ length (strip_zeros (drop n ds))
      = real (digits_value (drop n ds)) / 10 ^ (length ds - n)"
    using frac_strip [OF d] by simp
  ultimately show ?thesis by (simp add: field_simps)
qed

lemma exp_digits_props:
  "exp_digits n \<noteq> []" "list_all is_digit (exp_digits n)" "digits_value (exp_digits n) = n"
proof -
  let ?k = "max 2 (floorlog 10 n)"
  have "length (exp_digits n) = ?k" by (simp add: exp_digits_def)
  then show "exp_digits n \<noteq> []" by auto
  show "list_all is_digit (exp_digits n)" by (simp add: exp_digits_def)
  have "n < 10 ^ ?k"
  proof (cases "n = 0")
    case True
    then show ?thesis by simp
  next
    case False
    then have "n < 10 ^ floorlog 10 n" using floorlog_bounds [of n 10] by simp
    also have "(10::nat) ^ floorlog 10 n \<le> 10 ^ ?k" by (rule power_increasing) simp_all
    finally show ?thesis .
  qed
  then show "digits_value (exp_digits n) = n"
    by (simp add: exp_digits_def digits_value_dec_digits)
qed

lemma pow10_neg_diff:
  assumes "e \<le> 5"
  shows "pow10 (e - 5) = 1 / 10 ^ nat (5 - e)"
proof -
  have "e - 5 = - int (nat (5 - e))" using assms by simp
  then show ?thesis by (simp only: pow10_neg_nat)
qed

lemma fixed_value:
  assumes m: "m < 1000000" and e: "- 4 \<le> e" "e < 6"
  shows "\<exists>ip fp. fmt_fixed m e = dec_point ip fp \<and> ip \<noteq> [] \<and> list_all is_digit ip
           \<and> list_all is_digit fp
           \<and> real (digits_value ip) + real (digits_value fp) / 10 ^ length fp
               = real m * pow10 (e - 5)"
proof -
  let ?ds = "dec_digits 6 m"
  have dv: "digits_value ?ds = m" using m by (simp add: digits_value_dec_digits)
  have pw: "pow10 (e - 5) = 1 / 10 ^ nat (5 - e)" using e by (intro pow10_neg_diff) simp
  show ?thesis
  proof (cases "0 \<le> e")
    case True
    let ?n = "nat e + 1"
    let ?ip = "take ?n ?ds" and ?fp = "strip_zeros (drop ?n ?ds)"
    have f: "fmt_fixed m e = dec_point ?ip ?fp" using True by (simp add: fmt_fixed_def Let_def)
    have "length ?ip = ?n" using e True by simp
    then have ne: "?ip \<noteq> []" by (metis length_0_conv add_is_0 one_neq_zero)
    have di: "list_all is_digit ?ip" by (intro list_all_take_drop) simp
    have df: "list_all is_digit ?fp" by (intro strip_zeros_digits list_all_take_drop) simp
    have "6 - ?n = nat (5 - e)" using True e by simp
    then have v: "real (digits_value ?ip) + real (digits_value ?fp) / 10 ^ length ?fp
        = real m * pow10 (e - 5)"
      using split_value [of ?ds ?n] by (simp add: dv pw)
    from f ne di df v show ?thesis by blast
  next
    case False
    let ?z = "replicate (nat (- e - 1)) (CHR ''0'')"
    let ?fp = "strip_zeros (?z @ ?ds)"
    have f: "fmt_fixed m e = dec_point ''0'' ?fp" using False by (simp add: fmt_fixed_def Let_def)
    have dz: "list_all is_digit (?z @ ?ds)"
      using dec_digits_all_digits [of 6 m] by (auto simp: list_all_iff)
    have df: "list_all is_digit ?fp" using dz by (rule strip_zeros_digits)
    have "digits_value (?z @ ?ds) = m"
      using digits_value_append [of ?ds ?z] by (simp add: dv)
    moreover have "length (?z @ ?ds) = nat (5 - e)" using False by simp
    ultimately have "real (digits_value ?fp) / 10 ^ length ?fp = real m / 10 ^ nat (5 - e)"
      using frac_strip [OF dz] by simp
    then have v: "real (digits_value ''0'') + real (digits_value ?fp) / 10 ^ length ?fp
        = real m * pow10 (e - 5)"
      by (simp add: pw digits_value_def digit_val_def is_digit_def)
    have "''0'' \<noteq> []" "list_all is_digit ''0''" by simp_all
    with f df v show ?thesis by blast
  qed
qed

lemma sci_value:
  assumes m: "m < 1000000"
  shows "\<exists>ip fp tail k. fmt_sci m e = dec_point ip fp @ tail \<and> ip \<noteq> [] \<and> list_all is_digit ip
           \<and> list_all is_digit fp
           \<and> (\<exists>ex. ex \<noteq> [] \<and> list_all is_digit ex
                 \<and> (tail = CHR ''e'' # CHR ''-'' # ex \<and> k = - int (digits_value ex)
                     \<or> tail = CHR ''e'' # CHR ''+'' # ex \<and> k = int (digits_value ex)))
           \<and> (real (digits_value ip) + real (digits_value fp) / 10 ^ length fp) * pow10 k
               = real m * pow10 (e - 5)"
proof -
  let ?ds = "dec_digits 6 m"
  let ?ip = "take 1 ?ds" and ?fp = "strip_zeros (drop 1 ?ds)"
  let ?ex = "exp_digits (nat \<bar>e\<bar>)"
  let ?tail = "CHR ''e'' # (if e < 0 then CHR ''-'' else CHR ''+'') # ?ex"
  have dv: "digits_value ?ds = m" using m by (simp add: digits_value_dec_digits)
  have f: "fmt_sci m e = dec_point ?ip ?fp @ ?tail" by (simp add: fmt_sci_def Let_def)
  have "length ?ip = 1" by simp
  then have ne: "?ip \<noteq> []" by (metis length_0_conv one_neq_zero)
  have di: "list_all is_digit ?ip" by (intro list_all_take_drop) simp
  have df: "list_all is_digit ?fp" by (intro strip_zeros_digits list_all_take_drop) simp
  note ex = exp_digits_props [of "nat \<bar>e\<bar>"]
  have t: "?tail = CHR ''e'' # CHR ''-'' # ?ex \<and> e = - int (digits_value ?ex)
         \<or> ?tail = CHR ''e'' # CHR ''+'' # ?ex \<and> e = int (digits_value ?ex)"
    by (simp add: ex(3))
  have a: "real (digits_value ?ip) + real (digits_value ?fp) / 10 ^ length ?fp = real m / 100000"
    using split_value [of ?ds 1] by (simp add: dv)
  have "pow10 (e - 5) = pow10 e * pow10 (- 5)" by (simp add: pow10_add [symmetric])
  moreover have "pow10 (- 5) = 1 / 100000" by (simp add: pow10_def)
  ultimately have b: "pow10 (e - 5) = pow10 e / 100000" by simp
  have v: "(real (digits_value ?ip) + real (digits_value ?fp) / 10 ^ length ?fp) * pow10 e
      = real m * pow10 (e - 5)"
    unfolding a b by simp
  from f ne di df ex(1,2) t v show ?thesis by blast
qed

lemma sgn_if_real: "x \<noteq> 0 \<Longrightarrow> sgn x = (if x < 0 then - 1 else (1::real))"
  by (simp add: sgn_if)

lemma py_float_fmt_g6: "py_float (fmt_g6 x) = Some (round6 x)"
proof (cases "x = 0")
  case True
  have "py_float ((if False then ''-'' else []) @ dec_point ''0'' [] @ [])
      = Some ((if False then - 1 else 1)
              * ((real (digits_value ''0'') + real (digits_value []) / 10 ^ length ([]::string))
                 * pow10 0))"
    by (rule py_float_body) simp_all
  then have "py_float ''0'' = Some 0"
    by (simp add: dec_point_def digits_value_def digit_val_def is_digit_def)
  with True show ?thesis by (simp add: fmt_g6_def)
next
  case False
  obtain m e where me: "sig6 \<bar>x\<bar> = (m, e)" by (cases "sig6 \<bar>x\<bar>")
  from False have pos: "0 < \<bar>x\<bar>" by simp
  note sp = sig6_props [OF pos me]
  let ?neg = "x < 0"
  have r: "round6 x = (if ?neg then - 1 else 1) * (real m * pow10 (e - 5))"
    using False by (simp add: round6_def me sgn_if)
  show ?thesis
  proof (cases "- 4 \<le> e \<and> e < 6")
    case True
    then have f: "fmt_g6 x = (if ?neg then ''-'' else []) @ fmt_fixed m e"
      using False by (simp add: fmt_g6_def me)
    from fixed_value [OF sp(2), of e] True obtain ip fp where
      ff: "fmt_fixed m e = dec_point ip fp" and ip: "ip \<noteq> []" "list_all is_digit ip"
      and fp: "list_all is_digit fp"
      and v: "real (digits_value ip) + real (digits_value fp) / 10 ^ length fp
               = real m * pow10 (e - 5)"
      by blast
    have "py_float ((if ?neg then ''-'' else []) @ dec_point ip fp @ [])
        = Some ((if ?neg then - 1 else 1)
                * ((real (digits_value ip) + real (digits_value fp) / 10 ^ length fp) * pow10 0))"
      using ip fp by (rule py_float_body) simp
    then show ?thesis
      unfolding f ff r v by (simp add: pow10_def)
  next
    case out: False
    then have f: "fmt_g6 x = (if ?neg then ''-'' else []) @ fmt_sci m e"
      using False by (auto simp: fmt_g6_def me)
    from sci_value [OF sp(2), of e] obtain ip fp tail k where
      ff: "fmt_sci m e = dec_point ip fp @ tail" and ip: "ip \<noteq> []" "list_all is_digit ip"
      and fp: "list_all is_digit fp"
      and tl: "\<exists>ex. ex \<noteq> [] \<and> list_all is_digit ex
                 \<and> (tail = CHR ''e'' # CHR ''-'' # ex \<and> k = - int (digits_value ex)
                     \<or> tail = CHR ''e'' # CHR ''+'' # ex \<and> k = int (digits_value ex))"
      and v: "(real (digits_value ip) + real (digits_value fp) / 10 ^ length fp) * pow10 k
               = real m * pow10 (e - 5)"
      by blast
    have "py_float ((if ?neg then ''-'' else []) @ dec_point ip fp @ tail)
        = Some ((if ?neg then - 1 else 1)
                * ((real (digits_value ip) + real (digits_value fp) / 10 ^ length fp) * pow10 k))"
      using ip fp by (rule py_float_body) (simp add: tl)
    then show ?thesis
      unfolding f ff r v .
  qed
qed

lemma nospace_digits:
  assumes "list_all is_digit s"
  shows "list_all (\<lambda>c. \<not> py_isspace c) s"
  using assms unfolding list_all_iff by (metis is_digit_not_special(1))

lemma nospace_dec_point:
  assumes "list_all is_digit ip" and "list_all is_digit fp"
  shows "list_all (\<lambda>c. \<not> py_isspace c) (dec_point ip fp)"
  using dec_point_chars [OF assms] unfolding list_all_iff by (metis mant_char(2))

lemma nospace_marks:
  "\<not> py_isspace (CHR ''e'')" "\<not> py_isspace (CHR ''-'')" "\<not> py_isspace (CHR ''+'')"
  by (simp_all add: py_isspace_def)

lemma fmt_g6_token: "fmt_g6 x \<noteq> []" "list_all (\<lambda>c. \<not> py_isspace c) (fmt_g6 x)"
proof -
  have "fmt_g6 x \<noteq> [] \<and> list_all (\<lambda>c. \<not> py_isspace c) (fmt_g6 x)"
  proof (cases "x = 0")
    case True
    then show ?thesis by (simp add: fmt_g6_def py_isspace_def)
  next
    case False
    obtain m e where me: "sig6 \<bar>x\<bar> = (m, e)" by (cases "sig6 \<bar>x\<bar>")
    from False have pos: "0 < \<bar>x\<bar>" by simp
    note sp = sig6_props [OF pos me]
    have body: "(if - 4 \<le> e \<and> e < 6 then fmt_fixed m e else fmt_sci m e) \<noteq> []
        \<and> list_all (\<lambda>c. \<not> py_isspace c)
             (if - 4 \<le> e \<and> e < 6 then fmt_fixed m e else fmt_sci m e)"
    proof (cases "- 4 \<le> e \<and> e < 6")
      case True
      from fixed_value [OF sp(2), of e] True obtain ip fp where
        "fmt_fixed m e = dec_point ip fp" "ip \<noteq> []" "list_all is_digit ip" "list_all is_digit fp"
        by blast
      then show ?thesis
        using True nospace_dec_point [of ip fp] dec_point_hd(1) [of ip fp] by simp
    next
      case out: False
      from sci_value [OF sp(2), of e] obtain ip fp tail k ex where
        ff: "fmt_sci m e = dec_point ip fp @ tail" and ip: "ip \<noteq> []" "list_all is_digit ip"
        and fp: "list_all is_digit fp" and ex: "list_all is_digit ex"
        and tl: "tail = CHR ''e'' # CHR ''-'' # ex \<or> tail = CHR ''e'' # CHR ''+'' # ex"
        by blast
      from tl ex have "list_all (\<lambda>c. \<not> py_isspace c) tail"
        using nospace_digits [OF ex] by (auto simp: nospace_marks)
      then show ?thesis
        using out ff nospace_dec_point [OF ip(2) fp] dec_point_hd(1) [OF ip(1), of fp] by auto
    qed
    show ?thesis
      using False body by (simp add: fmt_g6_def me nospace_marks)
  qed
  then show "fmt_g6 x \<noteq> []" "list_all (\<lambda>c. \<not> py_isspace c) (fmt_g6 x)" by simp_all
qed

subsection \<open>Parsing the generated text\<close>

lemma join_sp_pairs:
  "join_sp (map (\<lambda>(t, v). fmt_g6 t @ '' '' @ fmt_g6 v) pts)
     = join_sp (concat (map (\<lambda>(t, v). [fmt_g6 t, fmt_g6 v]) pts))"
proof (induction pts)
  case Nil
  show ?case by simp
next
  case step: (Cons p ps)
  obtain t v where p: "p = (t, v)" by (cases p)
  show ?case
  proof (cases ps)
    case Nil
    then show ?thesis by (simp add: p)
  next
    case (Cons q qs)
    obtain t' v' where q: "q = (t', v')" by (cases q)
    from step.IH show ?thesis by (simp add: p Cons q)
  qed
qed

lemma parse_pairs_fmt:
  "parse_pairs (concat (map (\<lambda>(t, v). [fmt_g6 t, fmt_g6 v]) pts))
     = Some (map (\<lambda>(t, v). (if round6 t < 0 then 0 else round6 t, round6 v)) pts)"
  by (induction pts) (auto simp: py_float_fmt_g6)

lemma parts_generate:
  assumes "2 \<le> length (pwl_points st)"
  shows "pwl_parts (generate_pwl_text st)
     = concat (map (\<lambda>(t, v). [fmt_g6 t, fmt_g6 v]) (sort_key fst (pwl_points st)))"
proof -
  let ?toks = "concat (map (\<lambda>(t, v). [fmt_g6 t, fmt_g6 v]) (sort_key fst (pwl_points st)))"
  have "py_strip (pwl_text (generate_pwl_text st)) = pwl_cmd st"
    by (simp add: generate_pwl_text_def py_strip_pwl_cmd)
  moreover have "pwl_cmd st = ''PWL('' @ join_sp ?toks @ '')''"
    using assms by (simp add: pwl_cmd_def Let_def join_sp_pairs del: append.simps)
  ultimately have "pwl_parts (generate_pwl_text st) = py_split (join_sp ?toks)"
    by (simp only: pwl_parts_def pwl_content_wrapper)
  moreover have "\<forall>t\<in>set ?toks. t \<noteq> [] \<and> list_all (\<lambda>c. \<not> py_isspace c) t"
    by (auto simp: fmt_g6_token)
  ultimately show ?thesis by (simp add: py_split_def split_ws_join)
qed

lemma sorted_map_round6:
  assumes "sorted (map fst pts)" and "\<forall>p\<in>set pts. 0 \<le> fst p"
  shows "sorted (map fst (map (\<lambda>(t, v). (round6 t, round6 v)) pts))"
  using assms
proof (induction pts)
  case Nil
  show ?case by simp
next
  case (Cons p ps)
  have "round6 (fst p) \<le> round6 (fst q)" if "q \<in> set ps" for q
    using Cons.prems that by (intro round6_mono_nonneg) auto
  with Cons show ?case by (auto simp: case_prod_beta)
qed

lemma sort_key_sorted: "sorted (map f xs) \<Longrightarrow> sort_key f xs = xs"
  by (induction xs) (auto simp: insort_is_Cons)

lemma round6_samples:
  "round6 (1 / 3) = 333333 / 1000000"
  "round6 (1234567 / 1000000000000) = 123457 / 100000000000"
  "round6 (- 2) = - 2"
  "round6 (3 / 2000000) = 3 / 2000000"
  "round6 1 = 1"
  by (simp_all add: round6_def fmt_eval)

lemma generate_loaded: "generate_pwl_text loaded = loaded"
  by (simp add: generate_pwl_text_def loaded_fields strip_samples pwl_cmd_loaded)

lemma generate_frame:
  "grid_snap_enabled (generate_pwl_text st) = grid_snap_enabled st"
  "time_scale_of (generate_pwl_text st) = time_scale_of st"
  "value_scale_of (generate_pwl_text st) = value_scale_of st"
  "snap_point (generate_pwl_text st) = snap_point st"
  by (simp_all add: generate_pwl_text_def time_scale_of_def value_scale_of_def snap_point_def
      snap_to_grid_def fun_eq_iff)

text \<open>
  Claim C1. Take a state with at least two stored points, in ascending order of time,
  no time negative. With grid snapping off, parsing the text that \<open>generate_pwl_text\<close>
  writes stores each point with its time and its value rounded to six significant
  digits, in the same order. With snapping on and the units registered, the parse also
  snaps: it stores those rounded points snapped to the grid and sorted again. Either way
  the stored list is ascending in time. Every number reads back from its \<open>.6g\<close> form as
  its rounding, which differs from the number by at most five millionths of its
  magnitude. In the state \<open>loaded\<close>, where snapping is on, the point at 1.5 microseconds
  comes back at 2 microseconds.
\<close>

theorem parse_generate_round_trip:
  assumes "2 \<le> length (pwl_points st)" and "sorted (map fst (pwl_points st))"
    and "\<forall>p\<in>set (pwl_points st). 0 \<le> fst p"
  shows "(\<not> grid_snap_enabled st \<longrightarrow>
            pwl_points (parse_pwl_text (generate_pwl_text st))
              = map (\<lambda>(t, v). (round6 t, round6 v)) (pwl_points st))
     \<and> (grid_snap_enabled st \<and> time_scale_of st = Some ts \<and> value_scale_of st = Some vs \<longrightarrow>
            pwl_points (parse_pwl_text (generate_pwl_text st))
              = sort_key fst (map (snap_point st ts vs)
                   (map (\<lambda>(t, v). (round6 t, round6 v)) (pwl_points st))))
     \<and> sorted (map fst (pwl_points (parse_pwl_text (generate_pwl_text st))))
     \<and> (\<forall>x. py_float (fmt_g6 x) = Some (round6 x) \<and> \<bar>round6 x - x\<bar> \<le> \<bar>x\<bar> / 200000)"
proof -
  let ?st = "generate_pwl_text st"
  let ?pts = "pwl_points st"
  let ?R = "map (\<lambda>(t, v). (round6 t, round6 v)) ?pts"
  have srt: "sort_key fst ?pts = ?pts" using assms(2) by (rule sort_key_sorted)
  have parts: "pwl_parts ?st = concat (map (\<lambda>(t, v). [fmt_g6 t, fmt_g6 v]) ?pts)"
    using parts_generate [OF assms(1)] by (simp only: srt)
  have pp: "parse_pairs (pwl_parts ?st) = Some ?R"
  proof -
    have "(if round6 (fst p) < 0 then 0 else round6 (fst p)) = round6 (fst p)"
      if "p \<in> set ?pts" for p
      using assms(3) that round6_nonneg [of "fst p"] by auto
    then have "map (\<lambda>(t, v). (if round6 t < 0 then 0 else round6 t, round6 v)) ?pts = ?R"
      by (intro map_cong) (auto simp: case_prod_beta)
    then show ?thesis by (simp only: parts parse_pairs_fmt)
  qed
  have len: "length (pwl_parts ?st) = 2 * length ?pts"
    using parse_pairs_Some [OF pp] by simp
  have ok: "\<forall>tok\<in>set (pwl_parts ?st). py_float tok \<noteq> None"
    using pp parse_pairs_None_iff [of "pwl_parts ?st"] by auto
  have l4: "4 \<le> length (pwl_parts ?st)" "even (length (pwl_parts ?st))"
    using len assms(1) by simp_all
  have sR: "sorted (map fst ?R)" using assms(2,3) by (rule sorted_map_round6)
  then have sk: "sort_key fst ?R = ?R" by (rule sort_key_sorted)
  from parse_ok [OF l4 ok] obtain ps where
    "parse_pairs (pwl_parts ?st) = Some ps"
    "pwl_points (parse_pwl_text ?st) =
         (if grid_snap_enabled ?st then
            (case time_scale_of ?st of
               None \<Rightarrow> sort_key fst ps
             | Some ts \<Rightarrow>
                 (case value_scale_of ?st of
                    None \<Rightarrow> sort_key fst ps
                  | Some vs \<Rightarrow> sort_key fst (map (snap_point ?st ts vs) (sort_key fst ps))))
          else sort_key fst ps)"
    by blast
  with pp have eq: "pwl_points (parse_pwl_text ?st) =
         (if grid_snap_enabled st then
            (case time_scale_of st of
               None \<Rightarrow> ?R
             | Some ts \<Rightarrow>
                 (case value_scale_of st of
                    None \<Rightarrow> ?R
                  | Some vs \<Rightarrow> sort_key fst (map (snap_point st ts vs) ?R)))
          else ?R)"
    by (simp only: generate_frame sk option.inject)
  have 1: "\<not> grid_snap_enabled st \<longrightarrow> pwl_points (parse_pwl_text ?st) = ?R"
    by (simp add: eq)
  have 2: "grid_snap_enabled st \<and> time_scale_of st = Some ts \<and> value_scale_of st = Some vs \<longrightarrow>
      pwl_points (parse_pwl_text ?st) = sort_key fst (map (snap_point st ts vs) ?R)"
    by (simp add: eq)
  have 3: "sorted (map fst (pwl_points (parse_pwl_text ?st)))"
    unfolding eq using sR by (simp split: option.splits)
  have 4: "\<forall>x. py_float (fmt_g6 x) = Some (round6 x) \<and> \<bar>round6 x - x\<bar> \<le> \<bar>x\<bar> / 200000"
    by (simp only: py_float_fmt_g6 round6_error) simp
  from 1 2 3 4 show ?thesis by (intro conjI)
qed

theorem parse_generate_round_trip_witness:
  "pwl_points (parse_pwl_text (generate_pwl_text
       (init_tool\<lparr>pwl_points := [(0, 1 / 3), (1234567 / 10 ^ 12, - 2)]\<rparr>)))
     = [(0, 333333 / 1000000), (123457 / 10 ^ 11, - 2)]
   \<and> sorted (map fst (pwl_points (parse_pwl_text (generate_pwl_text
       (init_tool\<lparr>pwl_points := [(0, 1 / 3), (1234567 / 10 ^ 12, - 2)]\<rparr>)))))
   \<and> py_float (fmt_g6 (1 / 3)) = Some (333333 / 1000000)
   \<and> grid_snap_enabled loaded
   \<and> pwl_points (parse_pwl_text (generate_pwl_text loaded))
     = sort_key fst (map (snap_point loaded (1 / 1000000) (1 / 1000))
          [(0, 0), (3 / 2000000, 1)])"
proof -
  let ?st = "init_tool\<lparr>pwl_points := [(0, 1 / 3), (1234567 / 10 ^ 12, - 2)]\<rparr>"
  have p: "pwl_points ?st = [(0, 1 / 3), (1234567 / 10 ^ 12, - 2)]" by simp
  have h: "2 \<le> length (pwl_points ?st)" "sorted (map fst (pwl_points ?st))"
    "\<forall>p\<in>set (pwl_points ?st). 0 \<le> fst p"
    by (simp_all add: init_tool_def)
  have g: "\<not> grid_snap_enabled ?st" by (simp add: init_tool_def)
  note t = parse_generate_round_trip [OF h, of "1" "1"]
  from t g have "pwl_points (parse_pwl_text (generate_pwl_text ?st))
      = map (\<lambda>(t, v). (round6 t, round6 v)) (pwl_points ?st)"
    by (rule conjunct1 [THEN mp])
  then have 1: "pwl_points (parse_pwl_text (generate_pwl_text ?st))
      = [(0, 333333 / 1000000), (123457 / 10 ^ 11, - 2)]"
    unfolding p by (simp add: round6_samples)
  have 2: "sorted (map fst (pwl_points (parse_pwl_text (generate_pwl_text ?st))))"
    by (rule t [THEN conjunct2, THEN conjunct2, THEN conjunct1])
  from t have "py_float (fmt_g6 (1 / 3)) = Some (round6 (1 / 3))" by blast
  then have 3: "py_float (fmt_g6 (1 / 3)) = Some (333333 / 1000000)"
    by (simp only: round6_samples)
  have hl: "2 \<le> length (pwl_points loaded)" "sorted (map fst (pwl_points loaded))"
    "\<forall>p\<in>set (pwl_points loaded). 0 \<le> fst p"
    by (simp_all add: loaded_fields)
  have gl: "grid_snap_enabled loaded \<and> time_scale_of loaded = Some (1 / 1000000)
      \<and> value_scale_of loaded = Some (1 / 1000)"
    by (simp add: loaded_fields)
  have "pwl_points (parse_pwl_text (generate_pwl_text loaded))
      = sort_key fst (map (snap_point loaded (1 / 1000000) (1 / 1000))
          (map (\<lambda>(t, v). (round6 t, round6 v)) (pwl_points loaded)))"
    by (rule parse_generate_round_trip [OF hl, of "1 / 1000000" "1 / 1000",
          THEN conjunct2, THEN conjunct1, THEN mp, OF gl])
  then have 4: "pwl_points (parse_pwl_text (generate_pwl_text loaded))
     = sort_key fst (map (snap_point loaded (1 / 1000000) (1 / 1000))
          [(0, 0), (3 / 2000000, 1)])"
    by (simp only: loaded_fields list.map prod.case round6_samples round6_zero)
  from 1 2 3 4 gl show ?thesis by blast
qed

theorem round_trip_snap_counterexample:
  "pwl_points loaded = [(0, 0), (3 / 2000000, 1)]
   \<and> 2 \<le> length (pwl_points loaded)
   \<and> sorted (map fst (pwl_points loaded))
   \<and> distinct (map fst (pwl_points loaded))
   \<and> grid_snap_enabled loaded
   \<and> pwl_text (generate_pwl_text loaded) = ''PWL(0 0 1.5e-06 1)''
   \<and> round6 0 = 0 \<and> round6 (3 / 2000000) = 3 / 2000000 \<and> round6 1 = 1
   \<and> pwl_points (parse_pwl_text (generate_pwl_text loaded)) = [(0, 0), (1 / 500000, 1)]"
  by (simp add: generate_loaded loaded_fields parse_loaded round6_samples)

end
